theory Spec2Isabelle
  imports Complex_Main "HOL-Library.Sublist" "HOL-Library.Multiset"
begin

section \<open>JavaScript values used by the service\<close>

text \<open>
  The service is one file, \<^verbatim>\<open>server.js\<close>: an Express application with a CORS
  callback, a rate limiter on \<^verbatim>\<open>/api/\<close>, two routes over one table and a health
  route, and a start-up function that looks for a free port. The handlers are modelled
  as functions of the request that reached them; what they do besides answering (a
  statement sent to the pool, a line on the console) is returned as a list of effects,
  in the order the code performs them.
\<close>

subsection \<open>Numbers\<close>

text \<open>
  A JavaScript Number is NaN, an infinity or a finite double. \<open>Fin q\<close> is the finite
  Number of value \<open>q\<close>; the two zeros are both \<open>Fin 0\<close> (nothing below tells them
  apart: both are falsy, and both are below 1).
\<close>

datatype jsnum = NaN | Fin rat | PosInf | NegInf

text \<open>Truthiness of a Number, as \<^verbatim>\<open>||\<close> tests it: NaN and zero are falsy.\<close>

fun truthy_num :: "jsnum \<Rightarrow> bool" where
  "truthy_num NaN = False"
| "truthy_num (Fin q) = (q \<noteq> 0)"
| "truthy_num PosInf = True"
| "truthy_num NegInf = True"

definition or_num :: "jsnum \<Rightarrow> jsnum \<Rightarrow> jsnum" where
  "or_num a b = (if truthy_num a then a else b)"

fun Math_min :: "jsnum \<Rightarrow> jsnum \<Rightarrow> jsnum" where
  "Math_min NaN b = NaN"
| "Math_min a NaN = NaN"
| "Math_min NegInf b = NegInf"
| "Math_min a NegInf = NegInf"
| "Math_min PosInf b = b"
| "Math_min a PosInf = a"
| "Math_min (Fin a) (Fin b) = Fin (min a b)"

fun Math_max :: "jsnum \<Rightarrow> jsnum \<Rightarrow> jsnum" where
  "Math_max NaN b = NaN"
| "Math_max a NaN = NaN"
| "Math_max PosInf b = PosInf"
| "Math_max a PosInf = PosInf"
| "Math_max NegInf b = b"
| "Math_max a NegInf = a"
| "Math_max (Fin a) (Fin b) = Fin (max a b)"

subsection \<open>Converting a string to a Number\<close>

text \<open>
  \<^verbatim>\<open>Number(s)\<close> on a string: white space is trimmed, the empty string is 0, and the
  rest must be one numeric literal (a signed decimal literal with optional fraction and
  exponent, \<^verbatim>\<open>Infinity\<close>, or an unsigned hexadecimal, octal or binary integer),
  otherwise the result is NaN. A string is a list of code units; the white space
  modelled is the one that fits a \<^typ>\<open>char\<close>.
\<close>

definition is_white :: "char \<Rightarrow> bool" where
  "is_white c = ((of_char c :: nat) \<in> {9, 10, 11, 12, 13, 32, 160})"

definition trim :: "string \<Rightarrow> string" where
  "trim s = rev (dropWhile is_white (rev (dropWhile is_white s)))"

definition digit_value :: "char \<Rightarrow> nat option" where
  "digit_value c =
     (let n = (of_char c :: nat) in
      if 48 \<le> n \<and> n \<le> 57 then Some (n - 48)
      else if 97 \<le> n \<and> n \<le> 102 then Some (n - 87)
      else if 65 \<le> n \<and> n \<le> 70 then Some (n - 55)
      else None)"

definition is_digit_in :: "nat \<Rightarrow> char \<Rightarrow> bool" where
  "is_digit_in base c = (case digit_value c of None \<Rightarrow> False | Some d \<Rightarrow> d < base)"

definition digits_value :: "nat \<Rightarrow> string \<Rightarrow> nat" where
  "digits_value base ds = foldl (\<lambda>a c. a * base + (case digit_value c of None \<Rightarrow> 0 | Some d \<Rightarrow> d)) 0 ds"

text \<open>
  The value a literal denotes is rounded to the nearest double, ties to the even
  significand. For a positive \<open>q\<close> with \<open>2\<^sup>e \<le> q < 2\<^sup>e\<^sup>+\<^sup>1\<close> the doubles around \<open>q\<close> are
  the multiples of \<open>2\<^sup>e\<^sup>-\<^sup>5\<^sup>2\<close> (of \<open>2\<^sup>-\<^sup>1\<^sup>0\<^sup>7\<^sup>4\<close> when \<open>e\<close> is below \<open>-1022\<close>); a result of
  \<open>2\<^sup>1\<^sup>0\<^sup>2\<^sup>4\<close> or more is an infinity. \<open>bits n\<close> is the number of binary digits of \<open>n\<close>.
\<close>

function bits :: "int \<Rightarrow> nat" where
  "bits n = (if n \<le> 0 then 0 else Suc (bits (n div 2)))"
  by pat_completeness auto
termination
  by (relation "measure nat") auto

declare bits.simps [simp del]

definition pow2 :: "int \<Rightarrow> rat" where
  "pow2 k = (if 0 \<le> k then 2 ^ nat k else 1 / 2 ^ nat (- k))"

definition binary_exponent :: "rat \<Rightarrow> int" where
  "binary_exponent q =
     (if 1 \<le> q then int (bits \<lfloor>q\<rfloor>) - 1 else - int (bits (\<lceil>1 / q\<rceil> - 1)))"

definition round_half_even :: "rat \<Rightarrow> int" where
  "round_half_even x =
     (let f = \<lfloor>x\<rfloor>; r = x - of_int f
      in if r < 1 / 2 then f
         else if 1 / 2 < r then f + 1
         else if even f then f else f + 1)"

definition round_positive :: "rat \<Rightarrow> jsnum" where
  "round_positive q =
     (let e = max (binary_exponent q) (- 1022);
          v = of_int (round_half_even (q * pow2 (52 - e))) * pow2 (e - 52)
      in if 2 ^ 1024 \<le> v then PosInf else Fin v)"

definition to_double :: "rat \<Rightarrow> jsnum" where
  "to_double q =
     (if q = 0 then Fin 0
      else if q < 0 then (case round_positive (- q) of
                            PosInf \<Rightarrow> NegInf
                          | Fin v \<Rightarrow> Fin (- v)
                          | n \<Rightarrow> n)
      else round_positive q)"

definition ExponentPart :: "string \<Rightarrow> int option" where
  "ExponentPart s =
     (case s of
        [] \<Rightarrow> Some 0
      | c # t \<Rightarrow>
          if c = CHR ''e'' \<or> c = CHR ''E'' then
            (let (neg, ds) =
               (case t of
                  [] \<Rightarrow> (False, t)
                | d # u \<Rightarrow>
                    if d = CHR ''-'' then (True, u)
                    else if d = CHR ''+'' then (False, u)
                    else (False, t))
             in if ds \<noteq> [] \<and> list_all (is_digit_in 10) ds
                then Some (if neg then - int (digits_value 10 ds) else int (digits_value 10 ds))
                else None)
          else None)"

definition StrUnsignedDecimalLiteral :: "string \<Rightarrow> jsnum option" where
  "StrUnsignedDecimalLiteral s =
     (if s = ''Infinity'' then Some PosInf
      else
        let ip = takeWhile (is_digit_in 10) s;
            r1 = dropWhile (is_digit_in 10) s;
            fp = (case r1 of
                    [] \<Rightarrow> []
                  | c # t \<Rightarrow> if c = CHR ''.'' then takeWhile (is_digit_in 10) t else []);
            r2 = (case r1 of
                    [] \<Rightarrow> []
                  | c # t \<Rightarrow> if c = CHR ''.'' then dropWhile (is_digit_in 10) t else r1)
        in if ip = [] \<and> fp = [] then None
           else (case ExponentPart r2 of
                   None \<Rightarrow> None
                 | Some e \<Rightarrow>
                     let m = rat_of_nat (digits_value 10 (ip @ fp)) / 10 ^ length fp
                     in Some (to_double (if 0 \<le> e then m * 10 ^ nat e else m / 10 ^ nat (- e)))))"

fun negate :: "jsnum \<Rightarrow> jsnum" where
  "negate NaN = NaN"
| "negate (Fin q) = Fin (- q)"
| "negate PosInf = NegInf"
| "negate NegInf = PosInf"

definition StrDecimalLiteral :: "string \<Rightarrow> jsnum option" where
  "StrDecimalLiteral s =
     (case s of
        [] \<Rightarrow> None
      | c # t \<Rightarrow>
          if c = CHR ''+'' then StrUnsignedDecimalLiteral t
          else if c = CHR ''-'' then map_option negate (StrUnsignedDecimalLiteral t)
          else StrUnsignedDecimalLiteral s)"

definition NonDecimalIntegerLiteral :: "string \<Rightarrow> jsnum option" where
  "NonDecimalIntegerLiteral s =
     (case s of
        z # x # ds \<Rightarrow>
          (let base =
             (if x = CHR ''x'' \<or> x = CHR ''X'' then 16
              else if x = CHR ''o'' \<or> x = CHR ''O'' then 8
              else if x = CHR ''b'' \<or> x = CHR ''B'' then 2
              else (0::nat))
           in if z = CHR ''0'' \<and> 0 < base \<and> ds \<noteq> [] \<and> list_all (is_digit_in base) ds
              then Some (to_double (rat_of_nat (digits_value base ds)))
              else None)
      | _ \<Rightarrow> None)"

definition StringToNumber :: "string \<Rightarrow> jsnum" where
  "StringToNumber s =
     (let t = trim s in
      if t = [] then Fin 0
      else (case StrDecimalLiteral t of
              Some n \<Rightarrow> n
            | None \<Rightarrow> (case NonDecimalIntegerLiteral t of Some n \<Rightarrow> n | None \<Rightarrow> NaN)))"

subsection \<open>Query parameters\<close>

text \<open>
  What Express puts in \<^verbatim>\<open>req.query.limit\<close>: nothing (\<open>None\<close>, the JavaScript
  \<^verbatim>\<open>undefined\<close>), a string, or for repeated and bracketed keys an array or an
  object of such values. \<^verbatim>\<open>Number\<close> converts \<^verbatim>\<open>undefined\<close> to NaN and anything
  else through its string form: an array joins its elements with commas, an object is
  \<^verbatim>\<open>[object Object]\<close>. (An object with a property of its own named
  \<^verbatim>\<open>toString\<close>, which the parser of Express 4 can build from bracketed keys, has no
  string form, and \<^verbatim>\<open>Number\<close> throws on it; the model gives every object the
  string form of a plain one.)
\<close>

datatype qval = QStr string | QArr "qval list" | QObj "(string \<times> qval) list"

fun join_comma :: "string list \<Rightarrow> string" where
  "join_comma [] = []"
| "join_comma [s] = s"
| "join_comma (s # t) = s @ '','' @ join_comma t"

fun ToString :: "qval \<Rightarrow> string" where
  "ToString (QStr s) = s"
| "ToString (QArr vs) = join_comma (map ToString vs)"
| "ToString (QObj kvs) = ''[object Object]''"

definition Number :: "qval option \<Rightarrow> jsnum" where
  "Number v = (case v of None \<Rightarrow> NaN | Some x \<Rightarrow> StringToNumber (ToString x))"

section \<open>The listing limit\<close>

text \<open>
  \<^verbatim>\<open>const limit = Math.max(1, Math.min(100, Number(req.query.limit) || 20));\<close>
\<close>

definition limit_of :: "qval option \<Rightarrow> jsnum" where
  "limit_of q = Math_max (Fin 1) (Math_min (Fin 100) (or_num (Number q) (Fin 20)))"

section \<open>Requests\<close>

text \<open>
  The parts of an Express request the code reads: \<^verbatim>\<open>req.headers.origin\<close> (handed
  to the CORS callback), \<^verbatim>\<open>req.ip\<close> and \<^verbatim>\<open>req.ips\<close> (computed by Express
  under \<^verbatim>\<open>trust proxy\<close>), \<^verbatim>\<open>req.query.limit\<close> and \<^verbatim>\<open>req.body\<close>, with the
  method, the path and the other headers, which the code never reads. \<open>None\<close> is
  \<^verbatim>\<open>undefined\<close>.
\<close>

datatype jsval =
    Null
  | Bool bool
  | Num rat
  | Str string
  | Arr "jsval list"
  | Obj "(string \<times> jsval) list"
  | DateV nat

record request =
  req_method :: string
  path :: string
  hdr_origin :: "string option"
  headers :: "(string \<times> string) list"
  ip :: "string option"
  ips :: "string list"
  query_limit :: "qval option"
  body :: "jsval option"

record response =
  status :: nat
  json :: jsval

section \<open>CORS\<close>

text \<open>
  \<^verbatim>\<open>(process.env.CORS_ORIGIN || '').split(',').map((s) => s.trim()).filter(Boolean)\<close>
\<close>

fun split_on :: "char \<Rightarrow> string \<Rightarrow> string list" where
  "split_on c [] = [[]]"
| "split_on c (x # xs) =
     (if x = c then [] # split_on c xs
      else (case split_on c xs of [] \<Rightarrow> [[x]] | y # ys \<Rightarrow> (x # y) # ys))"

definition origins_of :: "string option \<Rightarrow> string list" where
  "origins_of CORS_ORIGIN =
     filter (\<lambda>s. s \<noteq> [])
       (map trim (split_on CHR '','' (case CORS_ORIGIN of None \<Rightarrow> [] | Some s \<Rightarrow> s)))"

text \<open>
  The callback given to \<^verbatim>\<open>cors\<close>. It answers through \<^verbatim>\<open>cb(err, allow)\<close>: the
  result is that pair. \<^verbatim>\<open>!origin\<close> holds of \<^verbatim>\<open>undefined\<close> and of the empty
  string.
\<close>

definition falsy_str :: "string option \<Rightarrow> bool" where
  "falsy_str s = (case s of None \<Rightarrow> True | Some t \<Rightarrow> t = [])"

definition array_includes :: "string list \<Rightarrow> string option \<Rightarrow> bool" where
  "array_includes xs v = (case v of None \<Rightarrow> False | Some x \<Rightarrow> x \<in> set xs)"

definition origin_cb :: "string list \<Rightarrow> string option \<Rightarrow> string option \<times> bool" where
  "origin_cb origins origin =
     (if falsy_str origin \<or> length origins = 0 \<or> array_includes origins origin
      then (None, True)
      else (None, False))"

text \<open>
  What the \<^verbatim>\<open>cors\<close> middleware does with the callback's answer, under
  \<^verbatim>\<open>credentials: true\<close>: an error is passed on; on \<^verbatim>\<open>true\<close> the request gets
  the CORS headers, with \<^verbatim>\<open>Access-Control-Allow-Credentials: true\<close>; on
  \<^verbatim>\<open>false\<close> it goes on without any. The middleware is installed with no path, so
  it sees every request.
\<close>

datatype cors_result = Cors_error string | Permitted bool | Rejected

definition credentials :: bool where
  "credentials = True"

definition cors_mw :: "string list \<Rightarrow> request \<Rightarrow> cors_result" where
  "cors_mw origins req =
     (case origin_cb origins (hdr_origin req) of
        (Some err, allow) \<Rightarrow> Cors_error err
      | (None, allow) \<Rightarrow> if allow then Permitted credentials else Rejected)"

section \<open>Validation of a submission\<close>

text \<open>
  \<^verbatim>\<open>const QuerySchema = z.object({
    text: z.string().min(1).max(2000),
    meta: z.record(z.any()).optional(),
  });\<close>
  The schema combinators are zod 3's (the one-argument \<^verbatim>\<open>z.record\<close> and
  \<^verbatim>\<open>error.flatten()\<close>). A parse gives the parsed data or a list of issues; an issue is
  a path and a code, and its message is the library's default text.
\<close>

datatype parsed_type =
  T_undefined | T_null | T_boolean | T_number | T_string | T_array | T_object | T_date

fun getParsedType :: "jsval option \<Rightarrow> parsed_type" where
  "getParsedType None = T_undefined"
| "getParsedType (Some Null) = T_null"
| "getParsedType (Some (Bool b)) = T_boolean"
| "getParsedType (Some (Num n)) = T_number"
| "getParsedType (Some (Str s)) = T_string"
| "getParsedType (Some (Arr vs)) = T_array"
| "getParsedType (Some (Obj kvs)) = T_object"
| "getParsedType (Some (DateV t)) = T_date"

fun type_name :: "parsed_type \<Rightarrow> string" where
  "type_name T_undefined = ''undefined''"
| "type_name T_null = ''null''"
| "type_name T_boolean = ''boolean''"
| "type_name T_number = ''number''"
| "type_name T_string = ''string''"
| "type_name T_array = ''array''"
| "type_name T_object = ''object''"
| "type_name T_date = ''date''"

datatype issue_code = Invalid_type parsed_type parsed_type | Too_small nat | Too_big nat

type_synonym issue = "string list \<times> issue_code"

function show_nat :: "nat \<Rightarrow> string" where
  "show_nat n =
     (if n < 10 then [char_of (48 + n)]
      else show_nat (n div 10) @ [char_of (48 + n mod 10)])"
  by pat_completeness auto
termination
  by (relation "measure id") auto

declare show_nat.simps [simp del]

fun message :: "issue_code \<Rightarrow> string" where
  "message (Invalid_type expected received) =
     (if received = T_undefined then ''Required''
      else ''Expected '' @ type_name expected @ '', received '' @ type_name received)"
| "message (Too_small n) = ''String must contain at least '' @ show_nat n @ '' character(s)''"
| "message (Too_big n) = ''String must contain at most '' @ show_nat n @ '' character(s)''"

text \<open>\<^verbatim>\<open>z.string().min(lo).max(hi)\<close>: the length is the number of code units.\<close>

definition z_string_min_max :: "nat \<Rightarrow> nat \<Rightarrow> jsval option \<Rightarrow> issue_code list + string" where
  "z_string_min_max lo hi v =
     (case v of
        Some (Str s) \<Rightarrow>
          (let issues = (if length s < lo then [Too_small lo] else []) @
                        (if hi < length s then [Too_big hi] else [])
           in if issues = [] then Inr s else Inl issues)
      | _ \<Rightarrow> Inl [Invalid_type T_string (getParsedType v)])"

text \<open>
  \<^verbatim>\<open>z.record(z.any()).optional()\<close>: \<^verbatim>\<open>undefined\<close> passes; anything else must be
  an object (not an array, not \<^verbatim>\<open>null\<close>), whose values are not looked at.
\<close>

definition z_record_any_optional :: "jsval option \<Rightarrow> issue_code list + jsval option" where
  "z_record_any_optional v =
     (case v of
        None \<Rightarrow> Inr None
      | Some (Obj kvs) \<Rightarrow> Inr v
      | _ \<Rightarrow> Inl [Invalid_type T_object (getParsedType v)])"

record parsed_data =
  data_text :: string
  data_meta :: "jsval option"

text \<open>
  An object is the list of its own properties, each key once; \<open>field\<close> reads one.
\<close>

definition field :: "jsval option \<Rightarrow> string \<Rightarrow> jsval option" where
  "field v k = (case v of Some (Obj kvs) \<Rightarrow> map_of kvs k | _ \<Rightarrow> None)"

definition at_path :: "string \<Rightarrow> issue_code list + 'a \<Rightarrow> issue list" where
  "at_path k r = (case r of Inl codes \<Rightarrow> map (\<lambda>c. ([k], c)) codes | Inr x \<Rightarrow> [])"

definition QuerySchema_safeParse :: "jsval option \<Rightarrow> issue list + parsed_data" where
  "QuerySchema_safeParse b =
     (case b of
        Some (Obj kvs) \<Rightarrow>
          (let t = z_string_min_max 1 2000 (field b ''text'');
               m = z_record_any_optional (field b ''meta'')
           in (case (t, m) of
                 (Inr txt, Inr mt) \<Rightarrow> Inr \<lparr>data_text = txt, data_meta = mt\<rparr>
               | _ \<Rightarrow> Inl (at_path ''text'' t @ at_path ''meta'' m)))
      | _ \<Rightarrow> Inl [([], Invalid_type T_object (getParsedType b))])"

text \<open>
  \<^verbatim>\<open>error.flatten()\<close>: the messages of the issues with an empty path under
  \<^verbatim>\<open>formErrors\<close>, the others under \<^verbatim>\<open>fieldErrors\<close>, grouped by the first element
  of their path.
\<close>

fun push_error :: "string \<Rightarrow> string \<Rightarrow> (string \<times> string list) list \<Rightarrow> (string \<times> string list) list" where
  "push_error k m [] = [(k, [m])]"
| "push_error k m ((k', ms) # rest) =
     (if k' = k then (k', ms @ [m]) # rest else (k', ms) # push_error k m rest)"

definition formErrors :: "issue list \<Rightarrow> string list" where
  "formErrors issues = map (\<lambda>i. message (snd i)) (filter (\<lambda>i. fst i = []) issues)"

definition fieldErrors :: "issue list \<Rightarrow> (string \<times> string list) list" where
  "fieldErrors issues =
     foldl (\<lambda>acc i. case fst i of [] \<Rightarrow> acc | k # ks \<Rightarrow> push_error k (message (snd i)) acc)
       [] issues"

definition flatten :: "issue list \<Rightarrow> jsval" where
  "flatten issues =
     Obj [(''formErrors'', Arr (map Str (formErrors issues))),
          (''fieldErrors'', Obj (map (\<lambda>(k, ms). (k, Arr (map Str ms))) (fieldErrors issues)))]"

section \<open>The store\<close>

text \<open>
  Modelled from the spec: the table \<^verbatim>\<open>query_logs\<close>, whose declaration is not in
  \<^verbatim>\<open>server.js\<close>. Its columns are \<^verbatim>\<open>id\<close> (assigned by the store, unique and
  increasing), \<^verbatim>\<open>text\<close>, \<^verbatim>\<open>ip\<close>, \<^verbatim>\<open>meta\<close> (a JSON document) and
  \<^verbatim>\<open>created_at\<close> (the store's time at the insert). \<open>clock\<close> is the store's time
  and \<open>fault\<close> the error, if any, with which it fails a statement (a lost connection,
  a rejected value): both are the environment's.
\<close>

record row =
  row_id :: nat
  row_text :: string
  row_ip :: "string option"
  row_meta :: jsval
  row_created_at :: nat

record db =
  table :: "row list"
  next_id :: nat
  clock :: nat
  fault :: "string option"

text \<open>
  The two statements the code sends, with their parameters:
  \<^verbatim>\<open>INSERT INTO query_logs(text, ip, meta) VALUES ($1, $2::inet, $3::jsonb)
  RETURNING id, created_at\<close> and
  \<^verbatim>\<open>SELECT id, text, ip, created_at FROM query_logs ORDER BY created_at DESC LIMIT $1\<close>.
  The third parameter of the insert is \<^verbatim>\<open>JSON.stringify\<close> of a value, which the
  store reads back as that value.
\<close>

datatype statement = Insert_query_log string "string option" jsval | Select_recent jsnum

definition order_by_created_at_desc :: "row list \<Rightarrow> row list" where
  "order_by_created_at_desc rs = rev (sort_key row_created_at rs)"

definition returning_id_created_at :: "row \<Rightarrow> jsval" where
  "returning_id_created_at r =
     Obj [(''id'', Num (of_nat (row_id r))), (''created_at'', DateV (row_created_at r))]"

definition select_columns :: "row \<Rightarrow> jsval" where
  "select_columns r =
     Obj [(''id'', Num (of_nat (row_id r))),
          (''text'', Str (row_text r)),
          (''ip'', (case row_ip r of None \<Rightarrow> Null | Some a \<Rightarrow> Str a)),
          (''created_at'', DateV (row_created_at r))]"

text \<open>
  \<^verbatim>\<open>pool.query\<close>: the rows of the result and the store afterwards, or the error
  thrown. A \<^verbatim>\<open>LIMIT\<close> takes a non-negative integer; any other Number is an error
  of the statement.
\<close>

definition pool_query :: "db \<Rightarrow> statement \<Rightarrow> string + (jsval list \<times> db)" where
  "pool_query d q =
     (case fault d of
        Some e \<Rightarrow> Inl e
      | None \<Rightarrow>
          (case q of
             Insert_query_log t a m \<Rightarrow>
               (let r = \<lparr>row_id = next_id d, row_text = t, row_ip = a, row_meta = m,
                         row_created_at = clock d\<rparr>
                in Inr ([returning_id_created_at r],
                        d\<lparr>table := table d @ [r], next_id := Suc (next_id d)\<rparr>))
           | Select_recent lmt \<Rightarrow>
               (case lmt of
                  Fin n \<Rightarrow>
                    if 0 \<le> n \<and> n = of_int \<lfloor>n\<rfloor>
                    then Inr (map select_columns
                                (take (nat \<lfloor>n\<rfloor>) (order_by_created_at_desc (table d))), d)
                    else Inl ''invalid LIMIT''
                | _ \<Rightarrow> Inl ''invalid LIMIT'')))"

section \<open>The routes\<close>

text \<open>
  A handler gives the response, the store afterwards and what it did on the way: each
  statement sent to the pool and each console line, in order.
\<close>

datatype effect =
    Pool_query statement
  | Console_error string
  | Listen nat
  | Console_log_listening nat
  | Console_warn_port_busy nat

record outcome =
  res :: response
  db_after :: db
  effects :: "effect list"

text \<open>\<^verbatim>\<open>x || null\<close> on an address: \<^verbatim>\<open>undefined\<close> and the empty string give \<^verbatim>\<open>null\<close>.\<close>

definition or_null :: "string option \<Rightarrow> string option" where
  "or_null a = (if falsy_str a then None else a)"

text \<open>A property whose value is \<^verbatim>\<open>undefined\<close> is left out of the JSON sent.\<close>

definition json_prop :: "string \<Rightarrow> jsval option \<Rightarrow> (string \<times> jsval) list" where
  "json_prop k v = (case v of None \<Rightarrow> [] | Some x \<Rightarrow> [(k, x)])"

definition post_queries :: "db \<Rightarrow> request \<Rightarrow> outcome" where
  "post_queries d req =
     (case QuerySchema_safeParse (body req) of
        Inl issues \<Rightarrow>
          \<lparr>res = \<lparr>status = 400,
                   json = Obj [(''error'', Str ''Invalid payload''), (''details'', flatten issues)]\<rparr>,
           db_after = d, effects = []\<rparr>
      | Inr data \<Rightarrow>
          (let address = or_null (if ips req \<noteq> [] then Some (hd (ips req)) else ip req);
               stmt = Insert_query_log (data_text data) address
                        (case data_meta data of None \<Rightarrow> Obj [] | Some m \<Rightarrow> m)
           in (case pool_query d stmt of
                 Inr (r # rows, d') \<Rightarrow>
                   \<lparr>res = \<lparr>status = 201,
                            json = Obj ([(''ok'', Bool True)] @
                                        json_prop ''id'' (field (Some r) ''id'') @
                                        json_prop ''createdAt'' (field (Some r) ''created_at''))\<rparr>,
                    db_after = d', effects = [Pool_query stmt]\<rparr>
               | Inr ([], d') \<Rightarrow>
                   \<lparr>res = \<lparr>status = 500, json = Obj [(''error'', Str ''DB insert failed'')]\<rparr>,
                    db_after = d', effects = [Pool_query stmt, Console_error ''TypeError'']\<rparr>
               | Inl e \<Rightarrow>
                   \<lparr>res = \<lparr>status = 500, json = Obj [(''error'', Str ''DB insert failed'')]\<rparr>,
                    db_after = d, effects = [Pool_query stmt, Console_error e]\<rparr>)))"

definition get_queries :: "db \<Rightarrow> request \<Rightarrow> outcome" where
  "get_queries d req =
     (let limit = limit_of (query_limit req);
          stmt = Select_recent limit
      in (case pool_query d stmt of
            Inr (rows, d') \<Rightarrow>
              \<lparr>res = \<lparr>status = 200, json = Obj [(''ok'', Bool True), (''items'', Arr rows)]\<rparr>,
               db_after = d', effects = [Pool_query stmt]\<rparr>
          | Inl e \<Rightarrow>
              \<lparr>res = \<lparr>status = 500, json = Obj [(''error'', Str ''DB select failed'')]\<rparr>,
               db_after = d, effects = [Pool_query stmt, Console_error e]\<rparr>))"

text \<open>\<^verbatim>\<open>app.get('/api/health', (_req, res) => { res.json({ ok: true }); });\<close>\<close>

definition get_health :: "db \<Rightarrow> request \<Rightarrow> outcome" where
  "get_health d req =
     \<lparr>res = \<lparr>status = 200, json = Obj [(''ok'', Bool True)]\<rparr>, db_after = d, effects = []\<rparr>"

section \<open>Starting the server\<close>

text \<open>
  \<^verbatim>\<open>const defaultPort = process.env.PORT || 8080;\<close> The variable is taken as the
  port number it holds; an unset or empty one is \<open>None\<close>.
\<close>

definition defaultPort :: "nat option \<Rightarrow> nat" where
  "defaultPort PORT = (case PORT of None \<Rightarrow> 8080 | Some p \<Rightarrow> p)"

text \<open>
  \<^verbatim>\<open>app.listen(port)\<close> either starts listening or emits an \<^verbatim>\<open>error\<close> event
  whose \<^verbatim>\<open>code\<close> the handler reads; which of the two happens on a port is the
  environment's. A port above 65535 makes \<^verbatim>\<open>listen\<close> throw; thrown from inside the
  error handler of the previous attempt, nothing catches it.
\<close>

datatype listen_event = Listening | Error_event string

datatype start_result = Serving nat | Not_serving | Uncaught string

function startServer :: "(nat \<Rightarrow> listen_event) \<Rightarrow> nat \<Rightarrow> effect list \<times> start_result" where
  "startServer env port =
     (if 65535 < port then ([Listen port], Uncaught ''ERR_SOCKET_BAD_PORT'')
      else (case env port of
              Listening \<Rightarrow> ([Listen port, Console_log_listening port], Serving port)
            | Error_event code \<Rightarrow>
                if code = ''EADDRINUSE''
                then (let (es, r) = startServer env (port + 1)
                      in (Listen port # Console_warn_port_busy port # es, r))
                else ([Listen port, Console_error code], Not_serving)))"
  by pat_completeness auto
termination
  by (relation "measure (\<lambda>(env, port). 65536 - port)") auto

declare startServer.simps [simp del]

section \<open>The rate limiter\<close>

text \<open>
  \<^verbatim>\<open>app.use('/api/', rateLimit({ windowMs: 60_000, max: 60, standardHeaders: true,
  legacyHeaders: false, keyGenerator: (req) => req.ip }));\<close>
\<close>

definition windowMs :: nat where
  "windowMs = 60000"

definition max_hits :: nat where
  "max_hits = 60"

definition standardHeaders :: bool where
  "standardHeaders = True"

definition legacyHeaders :: bool where
  "legacyHeaders = False"

definition keyGenerator :: "request \<Rightarrow> string option" where
  "keyGenerator req = ip req"

text \<open>
  Modelled from the spec: the middleware that \<^verbatim>\<open>rateLimit\<close> returns and the mount
  on \<^verbatim>\<open>/api/\<close> (the library is not in \<^verbatim>\<open>server.js\<close>, only its options are). It
  is a fixed-window counter: it counts the requests of a key within a fixed interval
  and starts again at the interval's end; a request beyond the maximum is answered 429.
  It applies to the paths under \<^verbatim>\<open>/api/\<close>. The state maps a key to its count and to
  the time its window ends; times are in milliseconds.
\<close>

type_synonym limiter = "string option \<Rightarrow> (nat \<times> nat) option"

definition under_api :: "string \<Rightarrow> bool" where
  "under_api p = prefix ''/api/'' p"

definition increment :: "limiter \<Rightarrow> string option \<Rightarrow> nat \<Rightarrow> nat \<times> nat" where
  "increment st k now =
     (case st k of
        None \<Rightarrow> (1, now + windowMs)
      | Some (hits, reset) \<Rightarrow> if now < reset then (hits + 1, reset) else (1, now + windowMs))"

definition rate_limit_headers :: "nat \<Rightarrow> nat \<Rightarrow> nat \<Rightarrow> (string \<times> string) list" where
  "rate_limit_headers hits reset now =
     (if standardHeaders
      then [(''RateLimit-Limit'', show_nat max_hits),
            (''RateLimit-Remaining'', show_nat (max_hits - hits)),
            (''RateLimit-Reset'', show_nat ((reset - now + 999) div 1000))]
      else []) @
     (if legacyHeaders
      then [(''X-RateLimit-Limit'', show_nat max_hits),
            (''X-RateLimit-Remaining'', show_nat (max_hits - hits)),
            (''X-RateLimit-Reset'', show_nat (reset div 1000))]
      else [])"

datatype verdict = Next "(string \<times> string) list" | Too_many_requests "(string \<times> string) list"

definition rateLimit :: "limiter \<Rightarrow> nat \<Rightarrow> request \<Rightarrow> verdict \<times> limiter" where
  "rateLimit st now req =
     (if under_api (path req)
      then (let k = keyGenerator req;
                (hits, reset) = increment st k now;
                st' = st(k \<mapsto> (hits, reset));
                hs = rate_limit_headers hits reset now
            in if max_hits < hits then (Too_many_requests hs, st') else (Next hs, st'))
      else (Next [], st))"

text \<open>A run of requests, each with its arrival time, through the limiter.\<close>

fun serve :: "limiter \<Rightarrow> (nat \<times> request) list \<Rightarrow> verdict list" where
  "serve st [] = []"
| "serve st ((now, req) # rs) =
     (let (v, st') = rateLimit st now req in v # serve st' rs)"

fun passed :: "verdict \<Rightarrow> bool" where
  "passed (Next hs) = True"
| "passed (Too_many_requests hs) = False"

text \<open>The requests of a run that the limiter counts for the address \<open>a\<close>.\<close>

definition counts_for :: "string option \<Rightarrow> nat \<times> request \<Rightarrow> bool" where
  "counts_for a x = (under_api (path (snd x)) \<and> keyGenerator (snd x) = a)"

section \<open>The health route behind the limiter\<close>

text \<open>
  The limiter is installed on \<^verbatim>\<open>/api/\<close> before the routes are declared, so a request
  that \<^verbatim>\<open>app.get('/api/health', ...)\<close> matches goes through it first: when the
  limiter rejects the request, the handler is not run. (The CORS middleware, installed
  before both, only adds headers to such a request.) A run of such requests threads the
  limiter's state; the store is not touched.
\<close>

datatype answer = Answered outcome | Rate_limited "(string \<times> string) list"

definition health_route :: "limiter \<Rightarrow> db \<Rightarrow> nat \<Rightarrow> request \<Rightarrow> answer \<times> limiter" where
  "health_route st d now req =
     (case rateLimit st now req of
        (Too_many_requests hs, st') \<Rightarrow> (Rate_limited hs, st')
      | (Next hs, st') \<Rightarrow> (Answered (get_health d req), st'))"

fun health_run :: "limiter \<Rightarrow> db \<Rightarrow> (nat \<times> request) list \<Rightarrow> answer list" where
  "health_run st d [] = []"
| "health_run st d ((now, req) # rs) =
     (let (a, st') = health_route st d now req in a # health_run st' d rs)"

section \<open>The specification's words\<close>

text \<open>
  A valid submission, as the specification words it: \<^verbatim>\<open>text\<close> is a string of 1 to
  2000 characters, and \<^verbatim>\<open>meta\<close> is left out or is an object.
\<close>

definition text_ok :: "jsval option \<Rightarrow> bool" where
  "text_ok v = (case v of Some (Str t) \<Rightarrow> 1 \<le> length t \<and> length t \<le> 2000 | _ \<Rightarrow> False)"

definition meta_ok :: "jsval option \<Rightarrow> bool" where
  "meta_ok v = (case v of None \<Rightarrow> True | Some (Obj kvs) \<Rightarrow> True | _ \<Rightarrow> False)"

definition valid_submission :: "jsval option \<Rightarrow> bool" where
  "valid_submission b = (text_ok (field b ''text'') \<and> meta_ok (field b ''meta''))"

text \<open>
  The CORS rule, as the specification words it: the allow-list is empty, or the request
  has no origin header, or its origin is in the allow-list.
\<close>

definition spec_cors_permits :: "string list \<Rightarrow> request \<Rightarrow> bool" where
  "spec_cors_permits origins req =
     (origins = [] \<or> hdr_origin req = None \<or>
      (case hdr_origin req of None \<Rightarrow> False | Some x \<Rightarrow> x \<in> set origins))"

text \<open>The limit as the specification words it: the parameter clamped to 1 and 100.\<close>

definition spec_clamp :: "rat \<Rightarrow> rat" where
  "spec_clamp q = max 1 (min 100 q)"

definition keys :: "jsval \<Rightarrow> string list" where
  "keys v = (case v of Obj kvs \<Rightarrow> map fst kvs | _ \<Rightarrow> [])"

definition aborted :: "start_result \<Rightarrow> bool" where
  "aborted r = (case r of Uncaught e \<Rightarrow> True | _ \<Rightarrow> False)"

text \<open>A request and a store to run the handlers on.\<close>

definition a_request :: request where
  "a_request =
     \<lparr>req_method = ''GET'', path = ''/api/queries'', hdr_origin = None, headers = [],
      ip = Some ''203.0.113.7'', ips = [], query_limit = None, body = None\<rparr>"

definition a_store :: db where
  "a_store = \<lparr>table = [], next_id = 1, clock = 1000, fault = None\<rparr>"

text \<open>
  The effects of the attempts on the busy ports from \<open>port\<close> up to \<open>q\<close>, and an
  environment in which ports 8080 and 8081 are busy.
\<close>

definition attempts :: "nat \<Rightarrow> nat \<Rightarrow> effect list" where
  "attempts port q = concat (map (\<lambda>p. [Listen p, Console_warn_port_busy p]) [port..<q])"

definition busy_then_free :: "nat \<Rightarrow> listen_event" where
  "busy_then_free p = (if p = 8080 \<or> p = 8081 then Error_event ''EADDRINUSE'' else Listening)"

text \<open>A store with three entries, the second the most recent.\<close>

definition some_rows :: db where
  "some_rows =
     \<lparr>table =
        [\<lparr>row_id = 1, row_text = ''first'', row_ip = None, row_meta = Obj [], row_created_at = 5\<rparr>,
         \<lparr>row_id = 2, row_text = ''second'', row_ip = Some ''198.51.100.4'',
          row_meta = Obj [(''k'', Num 1)], row_created_at = 9\<rparr>,
         \<lparr>row_id = 3, row_text = ''third'', row_ip = None, row_meta = Obj [], row_created_at = 7\<rparr>],
      next_id = 4, clock = 10, fault = None\<rparr>"

text \<open>
  For the runs through the limiter: an address has no open window at a time; how many
  of its requests a run has let through; and the names of the headers of a verdict.
\<close>

definition fresh :: "limiter \<Rightarrow> string option \<Rightarrow> nat \<Rightarrow> bool" where
  "fresh st a t = (case st a of None \<Rightarrow> True | Some (hits, reset) \<Rightarrow> reset \<le> t)"

definition let_through :: "string option \<Rightarrow> (nat \<times> request) list \<Rightarrow> verdict list \<Rightarrow> nat" where
  "let_through a rs vs = length (filter (\<lambda>(x, v). counts_for a x \<and> passed v) (zip rs vs))"

fun header_names :: "verdict \<Rightarrow> string list" where
  "header_names (Next hs) = map fst hs"
| "header_names (Too_many_requests hs) = map fst hs"

definition burst :: "(nat \<times> request) list" where
  "burst = map (\<lambda>k. (k * 900, a_request)) [0..<61]"

text \<open>
  A run that spans the end of a window: a request at time 0, one at 59990, and sixty
  from 60000 on.
\<close>

definition straddle :: "(nat \<times> request) list" where
  "straddle = (0, a_request) # (59990, a_request) # map (\<lambda>k. (60000 + k, a_request)) [0..<60]"

text \<open>An environment in which port 8080 is busy and port 8081 is refused.\<close>

definition busy_then_refused :: "nat \<Rightarrow> listen_event" where
  "busy_then_refused p = (if p = 8080 then Error_event ''EADDRINUSE'' else Error_event ''EACCES'')"

text \<open>
  What a rejection tells, in words: the kind of value that was received, and for each
  of \<^verbatim>\<open>text\<close>, \<^verbatim>\<open>meta\<close> and the body as a whole the reason it is refused.
\<close>

fun kind :: "jsval \<Rightarrow> string" where
  "kind Null = ''null''"
| "kind (Bool b) = ''boolean''"
| "kind (Num n) = ''number''"
| "kind (Str s) = ''string''"
| "kind (Arr vs) = ''array''"
| "kind (Obj kvs) = ''object''"
| "kind (DateV t) = ''date''"

definition is_object :: "jsval option \<Rightarrow> bool" where
  "is_object b = (case b of Some (Obj kvs) \<Rightarrow> True | _ \<Rightarrow> False)"




text \<open>
  For the runs of health requests: an answer is the limiter's rejection; a request is a
  \<^verbatim>\<open>GET\<close> of \<^verbatim>\<open>/api/health\<close>; and 61 such requests from one address, 900
  milliseconds apart.
\<close>

fun limited :: "answer \<Rightarrow> bool" where
  "limited (Answered out) = False"
| "limited (Rate_limited hs) = True"

definition to_health :: "nat \<times> request \<Rightarrow> bool" where
  "to_health x = (req_method (snd x) = ''GET'' \<and> path (snd x) = ''/api/health'')"

definition health_burst :: "(nat \<times> request) list" where
  "health_burst = map (\<lambda>k. (k * 900, a_request\<lparr>path := ''/api/health''\<rparr>)) [0..<61]"

section \<open>The effective limit of a listing\<close>

text \<open>Small integers are doubles: rounding leaves them as they are.\<close>

lemmas rounding_defs = to_double_def round_positive_def binary_exponent_def pow2_def
  round_half_even_def Let_def

lemma to_double_0: "to_double 0 = Fin 0"
  by (simp add: to_double_def)

lemma to_double_2: "to_double 2 = Fin 2"
  by (simp add: rounding_defs bits.simps)

lemma to_double_5: "to_double 5 = Fin 5"
  by (simp add: rounding_defs bits.simps)

lemma to_double_500: "to_double 500 = Fin 500"
  by (simp add: rounding_defs bits.simps)

lemmas number_defs = Number_def StringToNumber_def trim_def is_white_def StrDecimalLiteral_def
  StrUnsignedDecimalLiteral_def NonDecimalIntegerLiteral_def is_digit_in_def digit_value_def
  digits_value_def ExponentPart_def to_double_0 to_double_2 to_double_5 to_double_500

text \<open>
  Whatever the parameter, the limit is a finite number between 1 and 100. It is 20 when
  the parameter is absent or is not a number, and the clamped value when the parameter
  is a number other than zero.
\<close>

lemma limit_of_range: "\<exists>q. limit_of v = Fin q \<and> 1 \<le> q \<and> q \<le> 100"
  by (cases "Number v") (auto simp: limit_of_def or_num_def)

lemma limit_of_not_a_number: "Number v = NaN \<Longrightarrow> limit_of v = Fin 20"
  by (simp add: limit_of_def or_num_def)

lemma limit_of_absent: "limit_of None = Fin 20"
  by (simp add: limit_of_def or_num_def Number_def)

lemma limit_of_nonzero: "Number v = Fin q \<Longrightarrow> q \<noteq> 0 \<Longrightarrow> limit_of v = Fin (spec_clamp q)"
  by (simp add: limit_of_def or_num_def spec_clamp_def)

lemma limit_of_zero: "Number v = Fin 0 \<Longrightarrow> limit_of v = Fin 20"
  by (simp add: limit_of_def or_num_def)

lemma limit_of_500: "limit_of (Some (QStr ''500'')) = Fin 100"
  by (simp add: limit_of_def or_num_def number_defs)

lemma limit_of_minus_5: "limit_of (Some (QStr ''-5'')) = Fin 1"
  by (simp add: limit_of_def or_num_def number_defs)

lemma limit_of_word: "limit_of (Some (QStr ''abc'')) = Fin 20"
  by (simp add: limit_of_def or_num_def number_defs)

text \<open>
  C1. The effective limit is the \<^verbatim>\<open>limit\<close> parameter clamped to 1 and 100, and 20
  when the parameter is absent or not numeric; \<^verbatim>\<open>limit=0\<close> gives 1. On the code,
  \<^verbatim>\<open>limit=0\<close> gives 20: \<^verbatim>\<open>Number('0')\<close> is 0, which \<^verbatim>\<open>||\<close> takes for a missing
  value, so the default is clamped instead of the parameter, whose clamped value is 1.
\<close>

theorem limit_zero_not_clamped:
  "Number (Some (QStr ''0'')) = Fin 0 \<and> limit_of (Some (QStr ''0'')) = Fin 20 \<and> spec_clamp 0 = 1"
  by (simp add: limit_of_def or_num_def number_defs spec_clamp_def)

section \<open>The CORS decision\<close>

lemma origin_cb_no_error: "fst (origin_cb origins origin) = None"
  by (simp add: origin_cb_def)

lemma cors_mw_cases:
  "cors_mw origins req =
     (if falsy_str (hdr_origin req) \<or> origins = [] \<or> array_includes origins (hdr_origin req)
      then Permitted True else Rejected)"
  by (simp add: cors_mw_def origin_cb_def credentials_def)

text \<open>
  C5, as stated: a request is permitted, with credentials, exactly when the allow-list
  is empty, or it has no origin header, or its origin is in the allow-list. An origin
  header that is there and empty is a fourth case: \<^verbatim>\<open>!origin\<close> holds of the empty
  string, so the request is permitted though the list is not empty, the header is
  present and the empty origin is not in the list.
\<close>

theorem cors_empty_origin_counterexample:
  "cors_mw (origins_of (Some ''https://a.com'')) (a_request\<lparr>hdr_origin := Some []\<rparr>) = Permitted True
   \<and> \<not> spec_cors_permits (origins_of (Some ''https://a.com'')) (a_request\<lparr>hdr_origin := Some []\<rparr>)"
  by (simp add: cors_mw_def origin_cb_def credentials_def falsy_str_def origins_of_def trim_def
      is_white_def spec_cors_permits_def a_request_def)

text \<open>
  C5, amended: for every request, whatever its route, the request is permitted, with
  credentials allowed, exactly when the allow-list is empty, or the request has no
  origin header or an empty one, or its origin is in the allow-list; otherwise it is
  rejected. The allow-list is made of the pieces of \<^verbatim>\<open>CORS_ORIGIN\<close> between commas,
  trimmed, the empty ones dropped.
\<close>

theorem cors_decision:
  "cors_mw (origins_of env) req =
     (if origins_of env = [] \<or> hdr_origin req = None \<or> hdr_origin req = Some []
         \<or> (\<exists>x. hdr_origin req = Some x \<and> x \<in> set (origins_of env))
      then Permitted True else Rejected)"
  by (cases "hdr_origin req")
     (auto simp: cors_mw_cases falsy_str_def array_includes_def)

text \<open>
  C10. For a fixed allow-list the decision depends on the origin header alone: two
  requests with the same origin header get the same decision, whatever their method,
  path, body and other headers; and the callback never reports an error.
\<close>

theorem cors_depends_on_origin_only:
  "hdr_origin r1 = hdr_origin r2 \<Longrightarrow>
     cors_mw origins r1 = cors_mw origins r2 \<and>
     fst (origin_cb origins (hdr_origin r1)) = None \<and>
     (\<forall>e. cors_mw origins r1 \<noteq> Cors_error e)"
  by (simp add: cors_mw_cases origin_cb_no_error)

theorem cors_depends_on_origin_only_witness:
  "cors_mw [''https://a.com''] (a_request\<lparr>hdr_origin := Some ''https://b.com''\<rparr>) =
   cors_mw [''https://a.com'']
     (a_request\<lparr>req_method := ''POST'', path := ''/index.html'', hdr_origin := Some ''https://b.com'',
                 headers := [(''accept'', ''*/*'')], body := Some (Obj [])\<rparr>)
   \<and> cors_mw [''https://a.com''] (a_request\<lparr>hdr_origin := Some ''https://b.com''\<rparr>) = Rejected"
  using cors_depends_on_origin_only
    [of "a_request\<lparr>hdr_origin := Some ''https://b.com''\<rparr>"
        "a_request\<lparr>req_method := ''POST'', path := ''/index.html'', hdr_origin := Some ''https://b.com'',
                 headers := [(''accept'', ''*/*'')], body := Some (Obj [])\<rparr>"
        "[''https://a.com'']"]
  by (simp add: cors_mw_cases falsy_str_def array_includes_def)

section \<open>Start-up\<close>

lemma attempts_step:
  "port < q \<Longrightarrow>
   attempts port q = Listen port # Console_warn_port_busy port # attempts (Suc port) q"
  by (simp add: attempts_def upt_conv_Cons)

text \<open>While the ports are busy, each attempt is followed by one on the next port.\<close>

lemma startServer_run:
  "port \<le> q \<Longrightarrow> q \<le> 65535 \<Longrightarrow>
   (\<forall>p. port \<le> p \<and> p < q \<longrightarrow> env p = Error_event ''EADDRINUSE'') \<Longrightarrow>
   startServer env port = (attempts port q @ fst (startServer env q), snd (startServer env q))"
proof (induction "q - port" arbitrary: port)
  case 0
  then show ?case by (simp add: attempts_def)
next
  case (Suc n)
  then have lt: "port < q" and busy: "env port = Error_event ''EADDRINUSE''" by auto
  have ih: "startServer env (Suc port) =
      (attempts (Suc port) q @ fst (startServer env q), snd (startServer env q))"
    using Suc by (intro Suc.hyps(1)) auto
  have "startServer env port =
      (Listen port # Console_warn_port_busy port # fst (startServer env (Suc port)),
       snd (startServer env (Suc port)))"
    using lt Suc.prems(2) busy by (subst startServer.simps) (simp add: case_prod_beta)
  then show ?case using ih lt by (simp add: attempts_step)
qed

lemma startServer_port_range_exhausted:
  "startServer (\<lambda>p. Error_event ''EADDRINUSE'') 65535 =
     ([Listen 65535, Console_warn_port_busy 65535, Listen 65536], Uncaught ''ERR_SOCKET_BAD_PORT'')"
  by (simp add: startServer.simps [of _ 65535] startServer.simps [of _ 65536])

text \<open>
  C7, as stated: a bind error other than a busy port is logged and aborts the process.
  On the code the error is logged and the handler returns: nothing is thrown and
  nothing ends the process. Here port 80 is refused with \<^verbatim>\<open>EACCES\<close>.
\<close>

theorem startServer_other_error_counterexample:
  "startServer (\<lambda>p. Error_event ''EACCES'') 80 = ([Listen 80, Console_error ''EACCES''], Not_serving)
   \<and> \<not> aborted (snd (startServer (\<lambda>p. Error_event ''EACCES'') 80))"
  by (simp add: startServer.simps [of _ 80] aborted_def)

text \<open>
  C7, amended: the server binds to the configured port (8080 by default); whenever
  binding fails because the port is in use it tries the next higher port, as many times
  as it takes, until a port is free; whenever binding fails with any other error it
  logs the error and makes no further attempt: the handler returns, and nothing in the
  code aborts the process. Ports are numbers up to 65535.
\<close>

theorem startServer_retries:
  "defaultPort None = 8080 \<and>
   (port \<le> q \<longrightarrow> q \<le> 65535 \<longrightarrow>
    (\<forall>p. port \<le> p \<and> p < q \<longrightarrow> env p = Error_event ''EADDRINUSE'') \<longrightarrow>
      (env q = Listening \<longrightarrow>
         startServer env port =
           (attempts port q @ [Listen q, Console_log_listening q], Serving q)) \<and>
      (\<forall>code. env q = Error_event code \<longrightarrow> code \<noteq> ''EADDRINUSE'' \<longrightarrow>
         startServer env port =
           (attempts port q @ [Listen q, Console_error code], Not_serving)))"
proof -
  have "startServer env port = (attempts port q @ [Listen q, Console_log_listening q], Serving q)"
    if "port \<le> q" "q \<le> 65535"
       "\<forall>p. port \<le> p \<and> p < q \<longrightarrow> env p = Error_event ''EADDRINUSE''"
       "env q = Listening"
    using startServer_run [OF that(1,2,3)] that(2,4) by (simp add: startServer.simps [of env q])
  moreover have "startServer env port = (attempts port q @ [Listen q, Console_error code], Not_serving)"
    if "port \<le> q" "q \<le> 65535"
       "\<forall>p. port \<le> p \<and> p < q \<longrightarrow> env p = Error_event ''EADDRINUSE''"
       "env q = Error_event code" "code \<noteq> ''EADDRINUSE''" for code
    using startServer_run [OF that(1,2,3)] that(2,4,5) by (simp add: startServer.simps [of env q])
  ultimately show ?thesis by (simp add: defaultPort_def)
qed

theorem startServer_retries_witness:
  "startServer busy_then_free (defaultPort None) =
     ([Listen 8080, Console_warn_port_busy 8080, Listen 8081, Console_warn_port_busy 8081,
       Listen 8082, Console_log_listening 8082], Serving 8082) \<and>
   startServer busy_then_refused (defaultPort None) =
     ([Listen 8080, Console_warn_port_busy 8080, Listen 8081, Console_error ''EACCES''],
      Not_serving)"
proof -
  have "\<forall>p. 8080 \<le> p \<and> p < 8081 \<longrightarrow> busy_then_refused p = Error_event ''EADDRINUSE''"
    by (auto simp: busy_then_refused_def)
  moreover have "busy_then_refused 8081 = Error_event ''EACCES''"
    by (simp add: busy_then_refused_def)
  moreover have "attempts 8080 8081 = [Listen 8080, Console_warn_port_busy 8080]"
    by (simp add: attempts_def upt_conv_Cons)
  ultimately have refused: "startServer busy_then_refused (defaultPort None) =
     ([Listen 8080, Console_warn_port_busy 8080, Listen 8081, Console_error ''EACCES''],
      Not_serving)"
    using startServer_retries [of 8080 8081 busy_then_refused] by (simp add: defaultPort_def)
  have "\<forall>p. 8080 \<le> p \<and> p < 8082 \<longrightarrow> busy_then_free p = Error_event ''EADDRINUSE''"
    by (auto simp: busy_then_free_def)
  moreover have "busy_then_free 8082 = Listening"
    by (simp add: busy_then_free_def)
  moreover have "attempts 8080 8082 =
      [Listen 8080, Console_warn_port_busy 8080, Listen 8081, Console_warn_port_busy 8081]"
    by (simp add: attempts_def upt_conv_Cons)
  ultimately show ?thesis
    using startServer_retries [of 8080 8082 busy_then_free] refused by (simp add: defaultPort_def)
qed

section \<open>Submissions\<close>

subsection \<open>What the schema accepts\<close>

lemma z_string_ok:
  "text_ok v \<Longrightarrow> \<exists>t. v = Some (Str t) \<and> z_string_min_max 1 2000 v = Inr t"
  by (auto simp: text_ok_def z_string_min_max_def Suc_le_eq split: option.splits jsval.splits)

lemma z_string_bad:
  "\<not> text_ok v \<Longrightarrow> \<exists>cs. cs \<noteq> [] \<and> z_string_min_max 1 2000 v = Inl cs"
  by (auto simp: text_ok_def z_string_min_max_def Let_def Suc_le_eq split: option.splits jsval.splits)

lemma z_record_ok:
  "meta_ok v \<Longrightarrow> z_record_any_optional v = Inr v"
  by (auto simp: meta_ok_def z_record_any_optional_def split: option.splits jsval.splits)

lemma z_record_bad:
  "\<not> meta_ok v \<Longrightarrow> \<exists>cs. cs \<noteq> [] \<and> z_record_any_optional v = Inl cs"
  by (auto simp: meta_ok_def z_record_any_optional_def split: option.splits jsval.splits)

lemma field_not_object: "getParsedType b \<noteq> T_object \<Longrightarrow> field b k = None"
  by (cases b rule: getParsedType.cases) (simp_all add: field_def)

lemma valid_is_object: "valid_submission b \<Longrightarrow> getParsedType b = T_object"
  by (rule ccontr) (simp add: valid_submission_def text_ok_def field_not_object)

lemma safeParse_object:
  "getParsedType b = T_object \<Longrightarrow>
   QuerySchema_safeParse b =
     (case (z_string_min_max 1 2000 (field b ''text''), z_record_any_optional (field b ''meta'')) of
        (Inr txt, Inr mt) \<Rightarrow> Inr \<lparr>data_text = txt, data_meta = mt\<rparr>
      | (t, m) \<Rightarrow> Inl (at_path ''text'' t @ at_path ''meta'' m))"
  by (cases b rule: getParsedType.cases)
     (auto simp: QuerySchema_safeParse_def Let_def split: sum.splits)

lemma safeParse_not_object:
  "getParsedType b \<noteq> T_object \<Longrightarrow>
   QuerySchema_safeParse b = Inl [([], Invalid_type T_object (getParsedType b))]"
  by (cases b rule: getParsedType.cases) (auto simp: QuerySchema_safeParse_def)

lemma safeParse_valid:
  assumes "valid_submission b"
  shows "\<exists>t. field b ''text'' = Some (Str t) \<and>
             QuerySchema_safeParse b = Inr \<lparr>data_text = t, data_meta = field b ''meta''\<rparr>"
proof -
  from assms have ob: "getParsedType b = T_object" by (rule valid_is_object)
  from assms obtain t where t: "field b ''text'' = Some (Str t)"
      "z_string_min_max 1 2000 (field b ''text'') = Inr t"
    using z_string_ok [of "field b ''text''"] by (auto simp: valid_submission_def)
  from assms have m: "z_record_any_optional (field b ''meta'') = Inr (field b ''meta'')"
    by (simp add: valid_submission_def z_record_ok)
  show ?thesis using t m by (simp add: safeParse_object [OF ob])
qed

lemma safeParse_invalid:
  assumes "\<not> valid_submission b"
  shows "\<exists>issues. issues \<noteq> [] \<and> QuerySchema_safeParse b = Inl issues"
proof (cases "getParsedType b = T_object")
  case False
  then show ?thesis by (simp add: safeParse_not_object)
next
  case True
  from assms consider "\<not> text_ok (field b ''text'')" | "\<not> meta_ok (field b ''meta'')"
    by (auto simp: valid_submission_def)
  then show ?thesis
  proof cases
    case 1
    then obtain cs where "cs \<noteq> []" "z_string_min_max 1 2000 (field b ''text'') = Inl cs"
      using z_string_bad by blast
    then show ?thesis
      by (auto simp: safeParse_object [OF True] at_path_def split: sum.splits)
  next
    case 2
    then obtain cs where "cs \<noteq> []" "z_record_any_optional (field b ''meta'') = Inl cs"
      using z_record_bad by blast
    then show ?thesis
      by (auto simp: safeParse_object [OF True] at_path_def split: sum.splits)
  qed
qed

lemma push_error_map_fst:
  "map fst (push_error k m acc) =
     (if k \<in> set (map fst acc) then map fst acc else map fst acc @ [k])"
  by (induction acc) (force split: if_splits)+

lemma push_error_keys: "fst ` set (push_error k m acc) = insert k (fst ` set acc)"
proof -
  have "set (map fst (push_error k m acc)) = insert k (set (map fst acc))"
    by (auto simp: push_error_map_fst simp del: set_map)
  then show ?thesis by simp
qed

lemma push_error_nonempty: "(\<forall>x \<in> set acc. snd x \<noteq> []) \<Longrightarrow> \<forall>x \<in> set (push_error k m acc). snd x \<noteq> []"
  by (induction acc) (force split: if_splits)+

lemma foldl_push_keys:
  "fst ` set (foldl (\<lambda>acc i. case fst i of [] \<Rightarrow> acc | k # ks \<Rightarrow> push_error k (f i) acc) acc issues)
   = fst ` set acc \<union> {k. \<exists>ks c. (k # ks, c) \<in> set issues}"
proof (induction issues arbitrary: acc)
  case Nil
  then show ?case by simp
next
  case (Cons i issues)
  obtain p c where i: "i = (p, c)" by (cases i)
  show ?case
  proof (cases p)
    case Nil
    then show ?thesis using Cons i by auto
  next
    case (Cons k ks)
    then show ?thesis using Cons.IH i by (auto simp: push_error_keys)
  qed
qed

lemma foldl_push_nonempty:
  "(\<forall>x \<in> set acc. snd x \<noteq> []) \<Longrightarrow>
   \<forall>x \<in> set (foldl (\<lambda>acc i. case fst i of [] \<Rightarrow> acc | k # ks \<Rightarrow> push_error k (f i) acc) acc issues).
      snd x \<noteq> []"
proof (induction issues arbitrary: acc)
  case Nil
  then show ?case by simp
next
  case (Cons i issues)
  show ?case
  proof (cases "fst i")
    case Nil
    then show ?thesis using Cons by simp
  next
    case (Cons k ks)
    then show ?thesis using Cons.IH [OF push_error_nonempty [OF Cons.prems]] by simp
  qed
qed

lemma fieldErrors_keys:
  "fst ` set (fieldErrors issues) = {k. \<exists>ks c. (k # ks, c) \<in> set issues}"
  by (simp add: fieldErrors_def foldl_push_keys)

lemma fieldErrors_nonempty: "\<forall>x \<in> set (fieldErrors issues). snd x \<noteq> []"
  unfolding fieldErrors_def by (rule foldl_push_nonempty) simp


subsection \<open>What a rejection reports\<close>




lemma type_name_kind: "type_name (getParsedType (Some x)) = kind x"
  by (cases x) simp_all




lemma is_object_parsed: "is_object b \<longleftrightarrow> getParsedType b = T_object"
  by (cases b rule: getParsedType.cases) (simp_all add: is_object_def)




subsection \<open>What an accepted submission does\<close>

lemma or_null_cases:
  "or_null (if ips req \<noteq> [] then Some (hd (ips req)) else ip req) =
     (case ips req of
        a # as \<Rightarrow> if a = [] then None else Some a
      | [] \<Rightarrow> (case ip req of None \<Rightarrow> None | Some a \<Rightarrow> if a = [] then None else Some a))"
  by (cases "ips req"; cases "ip req") (simp_all add: or_null_def falsy_str_def)

lemma pool_query_fault: "fault d = Some e \<Longrightarrow> pool_query d q = Inl e"
  by (simp add: pool_query_def)

lemma pool_query_insert:
  "fault d = None \<Longrightarrow>
   pool_query d (Insert_query_log t a m) =
     Inr ([returning_id_created_at
            \<lparr>row_id = next_id d, row_text = t, row_ip = a, row_meta = m, row_created_at = clock d\<rparr>],
          d\<lparr>table := table d @
                 [\<lparr>row_id = next_id d, row_text = t, row_ip = a, row_meta = m,
                   row_created_at = clock d\<rparr>],
            next_id := Suc (next_id d)\<rparr>)"
  by (simp add: pool_query_def Let_def)

text \<open>
  C2, amended: for every valid submission whose insert the store carries out, the
  create endpoint inserts exactly one row and responds 201 with
  \<^verbatim>\<open>{ok: true, id, createdAt}\<close>; the stored address is the first entry of the
  proxy-forwarded list when that list is not empty and otherwise the direct peer
  address (an absent or empty address is stored as null), and the stored
  \<^verbatim>\<open>meta\<close> is the empty object when \<^verbatim>\<open>meta\<close> was omitted.
\<close>

theorem valid_submission_inserted:
  assumes "valid_submission (body req)" and "fault d = None"
  shows "\<exists>t r. field (body req) ''text'' = Some (Str t) \<and>
      r = \<lparr>row_id = next_id d, row_text = t,
           row_ip = (case ips req of
                       a # as \<Rightarrow> if a = [] then None else Some a
                     | [] \<Rightarrow> (case ip req of
                               None \<Rightarrow> None
                             | Some a \<Rightarrow> if a = [] then None else Some a)),
           row_meta = (case field (body req) ''meta'' of None \<Rightarrow> Obj [] | Some m \<Rightarrow> m),
           row_created_at = clock d\<rparr> \<and>
      table (db_after (post_queries d req)) = table d @ [r] \<and>
      res (post_queries d req) =
        \<lparr>status = 201,
         json = Obj [(''ok'', Bool True), (''id'', Num (of_nat (next_id d))),
                     (''createdAt'', DateV (clock d))]\<rparr> \<and>
      effects (post_queries d req) = [Pool_query (Insert_query_log t (row_ip r) (row_meta r))]"
proof -
  from assms(1) obtain t where t: "field (body req) ''text'' = Some (Str t)"
    and ok: "QuerySchema_safeParse (body req) =
      Inr \<lparr>data_text = t, data_meta = field (body req) ''meta''\<rparr>"
    using safeParse_valid by blast
  show ?thesis
    using t
    by (intro exI [of _ t])
       (simp add: post_queries_def ok Let_def pool_query_insert [OF assms(2)] or_null_cases
          returning_id_created_at_def field_def json_prop_def)
qed

theorem valid_submission_inserted_witness:
  "valid_submission (Some (Obj [(''text'', Str ''hello'')])) \<and> fault a_store = None \<and>
   res (post_queries a_store
          (a_request\<lparr>req_method := ''POST'', ips := [''198.51.100.4''],
                     body := Some (Obj [(''text'', Str ''hello'')])\<rparr>)) =
     \<lparr>status = 201,
      json = Obj [(''ok'', Bool True), (''id'', Num 1), (''createdAt'', DateV 1000)]\<rparr> \<and>
   table (db_after (post_queries a_store
          (a_request\<lparr>req_method := ''POST'', ips := [''198.51.100.4''],
                     body := Some (Obj [(''text'', Str ''hello'')])\<rparr>))) =
     [\<lparr>row_id = 1, row_text = ''hello'', row_ip = Some ''198.51.100.4'', row_meta = Obj [],
       row_created_at = 1000\<rparr>]"
proof -
  have v: "valid_submission (body (a_request\<lparr>req_method := ''POST'', ips := [''198.51.100.4''],
                     body := Some (Obj [(''text'', Str ''hello'')])\<rparr>))"
    by (simp add: valid_submission_def text_ok_def meta_ok_def field_def)
  have f: "fault a_store = None"
    by (simp add: a_store_def)
  show ?thesis
    using valid_submission_inserted [OF v f] v f
    by (simp add: a_store_def a_request_def field_def)
qed

text \<open>
  C2, as stated: every valid submission is inserted and answered 201. When the store
  fails the statement, a valid submission is answered 500 and no row is inserted.
\<close>

theorem valid_submission_storage_down_counterexample:
  "valid_submission (Some (Obj [(''text'', Str ''hello'')])) \<and>
   res (post_queries (a_store\<lparr>fault := Some ''ECONNREFUSED''\<rparr>)
          (a_request\<lparr>req_method := ''POST'', body := Some (Obj [(''text'', Str ''hello'')])\<rparr>)) =
     \<lparr>status = 500, json = Obj [(''error'', Str ''DB insert failed'')]\<rparr> \<and>
   table (db_after (post_queries (a_store\<lparr>fault := Some ''ECONNREFUSED''\<rparr>)
          (a_request\<lparr>req_method := ''POST'', body := Some (Obj [(''text'', Str ''hello'')])\<rparr>))) =
     table a_store"
  by (simp add: valid_submission_def text_ok_def meta_ok_def field_def post_queries_def
      QuerySchema_safeParse_def z_string_min_max_def z_record_any_optional_def
      pool_query_def a_store_def a_request_def)

text \<open>
  C8. Whenever the store fails the statement of a create or of a listing request, the
  endpoint responds 500 with a fixed body that carries nothing of the error, the error
  is written to the console, and the statement is sent once: it is not tried again.
\<close>

theorem storage_failure_opaque:
  "(valid_submission (body req) \<longrightarrow> fault d = Some e \<longrightarrow>
      (\<exists>stmt. post_queries d req =
         \<lparr>res = \<lparr>status = 500, json = Obj [(''error'', Str ''DB insert failed'')]\<rparr>,
          db_after = d, effects = [Pool_query stmt, Console_error e]\<rparr>)) \<and>
   (pool_query d (Select_recent (limit_of (query_limit req))) = Inl e \<longrightarrow>
      get_queries d req =
        \<lparr>res = \<lparr>status = 500, json = Obj [(''error'', Str ''DB select failed'')]\<rparr>,
         db_after = d,
         effects = [Pool_query (Select_recent (limit_of (query_limit req))), Console_error e]\<rparr>)"
proof -
  have "\<exists>stmt. post_queries d req =
         \<lparr>res = \<lparr>status = 500, json = Obj [(''error'', Str ''DB insert failed'')]\<rparr>,
          db_after = d, effects = [Pool_query stmt, Console_error e]\<rparr>"
    if v: "valid_submission (body req)" and f: "fault d = Some e"
  proof -
    from v obtain t where ok: "QuerySchema_safeParse (body req) =
        Inr \<lparr>data_text = t, data_meta = field (body req) ''meta''\<rparr>"
      using safeParse_valid by blast
    show ?thesis
      by (simp add: post_queries_def ok Let_def pool_query_fault [OF f])
  qed
  moreover have "get_queries d req =
        \<lparr>res = \<lparr>status = 500, json = Obj [(''error'', Str ''DB select failed'')]\<rparr>,
         db_after = d,
         effects = [Pool_query (Select_recent (limit_of (query_limit req))), Console_error e]\<rparr>"
    if "pool_query d (Select_recent (limit_of (query_limit req))) = Inl e"
    using that by (simp add: get_queries_def Let_def)
  ultimately show ?thesis by blast
qed

theorem storage_failure_opaque_witness:
  "post_queries (a_store\<lparr>fault := Some ''ECONNREFUSED''\<rparr>)
          (a_request\<lparr>req_method := ''POST'', body := Some (Obj [(''text'', Str ''hello'')])\<rparr>) =
     \<lparr>res = \<lparr>status = 500, json = Obj [(''error'', Str ''DB insert failed'')]\<rparr>,
      db_after = a_store\<lparr>fault := Some ''ECONNREFUSED''\<rparr>,
      effects = [Pool_query (Insert_query_log ''hello'' (Some ''203.0.113.7'') (Obj [])),
                 Console_error ''ECONNREFUSED'']\<rparr> \<and>
   get_queries (a_store\<lparr>fault := Some ''ECONNREFUSED''\<rparr>) a_request =
     \<lparr>res = \<lparr>status = 500, json = Obj [(''error'', Str ''DB select failed'')]\<rparr>,
      db_after = a_store\<lparr>fault := Some ''ECONNREFUSED''\<rparr>,
      effects = [Pool_query (Select_recent (Fin 20)), Console_error ''ECONNREFUSED'']\<rparr>"
proof -
  let ?d = "a_store\<lparr>fault := Some ''ECONNREFUSED''\<rparr>"
  let ?r = "a_request\<lparr>req_method := ''POST'', body := Some (Obj [(''text'', Str ''hello'')])\<rparr>"
  have v: "valid_submission (body ?r)"
    by (simp add: valid_submission_def text_ok_def meta_ok_def field_def)
  have f: "fault ?d = Some ''ECONNREFUSED''"
    by simp
  have l: "limit_of (query_limit a_request) = Fin 20"
    by (simp add: a_request_def limit_of_absent)
  have g: "pool_query ?d (Select_recent (limit_of (query_limit a_request))) = Inl ''ECONNREFUSED''"
    by (simp add: pool_query_fault)
  have s: "post_queries ?d ?r =
     \<lparr>res = \<lparr>status = 500, json = Obj [(''error'', Str ''DB insert failed'')]\<rparr>,
      db_after = ?d,
      effects = [Pool_query (Insert_query_log ''hello'' (Some ''203.0.113.7'') (Obj [])),
                 Console_error ''ECONNREFUSED'']\<rparr>"
    by (simp add: post_queries_def QuerySchema_safeParse_def z_string_min_max_def
        z_record_any_optional_def field_def pool_query_def a_request_def or_null_def falsy_str_def)
  show ?thesis
    using storage_failure_opaque [of ?r ?d "''ECONNREFUSED''"]
      storage_failure_opaque [of a_request ?d "''ECONNREFUSED''"] v f g l s
    by simp
qed

section \<open>Listings\<close>

lemma order_desc_sorted:
  "sorted_wrt (\<lambda>a b. row_created_at b \<le> row_created_at a) (order_by_created_at_desc rs)"
proof -
  have "sorted (map row_created_at (sort_key row_created_at rs))"
    by (rule sorted_sort_key)
  then have "sorted_wrt (\<lambda>a b. row_created_at a \<le> row_created_at b) (sort_key row_created_at rs)"
    by (simp add: sorted_map)
  then show ?thesis
    by (simp add: order_by_created_at_desc_def sorted_wrt_rev)
qed

lemma order_desc_mset: "mset (order_by_created_at_desc rs) = mset rs"
  by (simp add: order_by_created_at_desc_def)

lemma take_drop_recent:
  assumes "sorted_wrt (\<lambda>a b. row_created_at b \<le> row_created_at a) xs"
  shows "sorted_wrt (\<lambda>a b. row_created_at b \<le> row_created_at a) (take n xs)"
    and "\<forall>a \<in> set (take n xs). \<forall>b \<in> set (drop n xs). row_created_at b \<le> row_created_at a"
proof -
  have "sorted_wrt (\<lambda>a b. row_created_at b \<le> row_created_at a) (take n xs @ drop n xs)"
    using assms by simp
  then show "sorted_wrt (\<lambda>a b. row_created_at b \<le> row_created_at a) (take n xs)"
    and "\<forall>a \<in> set (take n xs). \<forall>b \<in> set (drop n xs). row_created_at b \<le> row_created_at a"
    unfolding sorted_wrt_append by auto
qed

lemma keys_select_columns: "keys (select_columns r) = [''id'', ''text'', ''ip'', ''created_at'']"
  by (simp add: keys_def select_columns_def)

lemma get_queries_success:
  assumes "status (res (get_queries d req)) = 200"
  shows "\<exists>n. limit_of (query_limit req) = Fin (of_nat n) \<and> 1 \<le> n \<and> n \<le> 100 \<and>
     get_queries d req =
       \<lparr>res = \<lparr>status = 200,
                json = Obj [(''ok'', Bool True),
                            (''items'', Arr (map select_columns
                               (take n (order_by_created_at_desc (table d)))))]\<rparr>,
        db_after = d,
        effects = [Pool_query (Select_recent (limit_of (query_limit req)))]\<rparr>"
proof -
  obtain q where q: "limit_of (query_limit req) = Fin q" "1 \<le> q" "q \<le> 100"
    using limit_of_range by blast
  have ok: "fault d = None \<and> q = of_int \<lfloor>q\<rfloor>"
    using assms q
    by (auto simp: get_queries_def Let_def pool_query_def split: option.splits if_splits)
  define n where "n = nat \<lfloor>q\<rfloor>"
  have nq: "q = of_nat n"
    using ok q(2) by (simp add: n_def)
  have "1 \<le> n" "n \<le> 100"
    using q(2,3) unfolding nq by simp_all
  moreover have "get_queries d req =
       \<lparr>res = \<lparr>status = 200,
                json = Obj [(''ok'', Bool True),
                            (''items'', Arr (map select_columns
                               (take n (order_by_created_at_desc (table d)))))]\<rparr>,
        db_after = d,
        effects = [Pool_query (Select_recent (limit_of (query_limit req)))]\<rparr>"
    using ok q(1) by (simp add: get_queries_def Let_def pool_query_def nq)
  ultimately show ?thesis using q(1) nq by blast
qed


text \<open>
  C4. Every successful listing request is answered \<^verbatim>\<open>{ok: true, items: [...]}\<close>,
  where the items are the most recent stored entries (no entry left out is newer than
  one returned), ordered by \<^verbatim>\<open>created_at\<close> descending, at most the effective limit
  in number, and each item carries exactly the fields \<^verbatim>\<open>id\<close>, \<^verbatim>\<open>text\<close>,
  \<^verbatim>\<open>ip\<close>, \<^verbatim>\<open>created_at\<close>: \<^verbatim>\<open>meta\<close> is never among them.
\<close>

theorem listing_most_recent:
  assumes "status (res (get_queries d req)) = 200"
  shows "\<exists>n picked rest.
     limit_of (query_limit req) = Fin (of_nat n) \<and>
     json (res (get_queries d req)) =
       Obj [(''ok'', Bool True), (''items'', Arr (map select_columns picked))] \<and>
     mset picked + mset rest = mset (table d) \<and>
     sorted_wrt (\<lambda>a b. row_created_at b \<le> row_created_at a) picked \<and>
     (\<forall>a \<in> set picked. \<forall>b \<in> set rest. row_created_at b \<le> row_created_at a) \<and>
     length picked = min n (length (table d)) \<and>
     (\<forall>item \<in> set (map select_columns picked).
         keys item = [''id'', ''text'', ''ip'', ''created_at''] \<and> ''meta'' \<notin> set (keys item))"
proof -
  from get_queries_success [OF assms] obtain n where
    n: "limit_of (query_limit req) = Fin (of_nat n)" and
    g: "get_queries d req =
       \<lparr>res = \<lparr>status = 200,
                json = Obj [(''ok'', Bool True),
                            (''items'', Arr (map select_columns
                               (take n (order_by_created_at_desc (table d)))))]\<rparr>,
        db_after = d,
        effects = [Pool_query (Select_recent (limit_of (query_limit req)))]\<rparr>"
    by blast
  let ?all = "order_by_created_at_desc (table d)"
  have 1: "json (res (get_queries d req)) =
       Obj [(''ok'', Bool True), (''items'', Arr (map select_columns (take n ?all)))]"
    by (simp add: g)
  have "mset (take n ?all) + mset (drop n ?all) = mset ?all"
    by (metis append_take_drop_id mset_append)
  then have 2: "mset (take n ?all) + mset (drop n ?all) = mset (table d)"
    by (simp add: order_desc_mset)
  have 3: "sorted_wrt (\<lambda>a b. row_created_at b \<le> row_created_at a) (take n ?all)"
    and 4: "\<forall>a \<in> set (take n ?all). \<forall>b \<in> set (drop n ?all). row_created_at b \<le> row_created_at a"
    using take_drop_recent [OF order_desc_sorted] by blast+
  have "length ?all = length (table d)"
    by (metis order_desc_mset size_mset)
  then have 5: "length (take n ?all) = min n (length (table d))"
    by (simp add: min.commute)
  have 6: "\<forall>item \<in> set (map select_columns (take n ?all)).
         keys item = [''id'', ''text'', ''ip'', ''created_at''] \<and> ''meta'' \<notin> set (keys item)"
    by (auto simp: keys_select_columns)
  show ?thesis
    using n 1 2 3 4 5 6 by blast
qed

theorem listing_most_recent_witness:
  "status (res (get_queries some_rows (a_request\<lparr>query_limit := Some (QStr ''2'')\<rparr>))) = 200 \<and>
   json (res (get_queries some_rows (a_request\<lparr>query_limit := Some (QStr ''2'')\<rparr>))) =
     Obj [(''ok'', Bool True),
          (''items'',
           Arr [Obj [(''id'', Num 2), (''text'', Str ''second''), (''ip'', Str ''198.51.100.4''),
                     (''created_at'', DateV 9)],
                Obj [(''id'', Num 3), (''text'', Str ''third''), (''ip'', Null),
                     (''created_at'', DateV 7)]])]"
proof -
  have l: "limit_of (query_limit (a_request\<lparr>query_limit := Some (QStr ''2'')\<rparr>)) = Fin 2"
    by (simp add: limit_of_def or_num_def number_defs)
  have g: "get_queries some_rows (a_request\<lparr>query_limit := Some (QStr ''2'')\<rparr>) =
      \<lparr>res = \<lparr>status = 200,
               json = Obj [(''ok'', Bool True),
          (''items'',
           Arr [Obj [(''id'', Num 2), (''text'', Str ''second''), (''ip'', Str ''198.51.100.4''),
                     (''created_at'', DateV 9)],
                Obj [(''id'', Num 3), (''text'', Str ''third''), (''ip'', Null),
                     (''created_at'', DateV 7)]])]\<rparr>,
       db_after = some_rows, effects = [Pool_query (Select_recent (Fin 2))]\<rparr>"
    unfolding get_queries_def l
    by (simp add: pool_query_def some_rows_def order_by_created_at_desc_def select_columns_def)
  then have s: "status (res (get_queries some_rows (a_request\<lparr>query_limit := Some (QStr ''2'')\<rparr>))) = 200"
    by simp
  show ?thesis
    using listing_most_recent [OF s] g by simp
qed

section \<open>Runs through the rate limiter\<close>

lemma rateLimit_outside: "\<not> under_api (path req) \<Longrightarrow> rateLimit st now req = (Next [], st)"
  by (simp add: rateLimit_def)

lemma rateLimit_skips: "\<not> counts_for a (now, req) \<Longrightarrow> snd (rateLimit st now req) a = st a"
  by (auto simp: rateLimit_def counts_for_def Let_def split: prod.splits)

lemma rateLimit_counts:
  assumes "counts_for a (now, req)" and "st a = Some (h, reset)" and "now < reset"
  shows "snd (rateLimit st now req) a = Some (Suc h, reset)"
    and "passed (fst (rateLimit st now req)) \<longleftrightarrow> Suc h \<le> max_hits"
  using assms by (auto simp: rateLimit_def counts_for_def increment_def Let_def)

lemma rateLimit_opens:
  assumes "counts_for a (now, req)" and "fresh st a now"
  shows "snd (rateLimit st now req) a = Some (1, now + windowMs)"
    and "passed (fst (rateLimit st now req))"
  using assms
  by (auto simp: rateLimit_def counts_for_def increment_def Let_def fresh_def max_hits_def
      split: option.splits)

lemma rateLimit_header_names:
  "under_api (path req) \<Longrightarrow>
   header_names (fst (rateLimit st now req)) =
     [''RateLimit-Limit'', ''RateLimit-Remaining'', ''RateLimit-Reset'']"
  by (auto simp: rateLimit_def Let_def rate_limit_headers_def standardHeaders_def
      legacyHeaders_def split: prod.splits)

lemma rateLimit_rejects_under_api:
  "fst (rateLimit st now req) = Too_many_requests hs \<Longrightarrow> under_api (path req)"
  by (auto simp: rateLimit_def split: if_splits)

lemma serve_length: "length (serve st rs) = length rs"
  by (induction rs arbitrary: st) (auto split: prod.splits)

lemma serve_rejection_headers:
  "Too_many_requests hs \<in> set (serve st rs) \<Longrightarrow>
   map fst hs = [''RateLimit-Limit'', ''RateLimit-Remaining'', ''RateLimit-Reset'']"
proof (induction rs arbitrary: st)
  case Nil
  then show ?case by simp
next
  case (Cons x rs)
  obtain now req where x: "x = (now, req)" by (cases x)
  obtain v st' where r: "rateLimit st now req = (v, st')" by (cases "rateLimit st now req")
  from Cons.prems consider "v = Too_many_requests hs" | "Too_many_requests hs \<in> set (serve st' rs)"
    by (auto simp: x r)
  then show ?case
  proof cases
    case 1
    then have "under_api (path req)"
      using r rateLimit_rejects_under_api [of st now req hs] by simp
    from rateLimit_header_names [OF this, of st now] show ?thesis
      by (simp add: r 1)
  next
    case 2
    then show ?thesis by (rule Cons.IH)
  qed
qed

lemma serve_in_window:
  assumes "st a = Some (h, reset)"
    and "\<forall>x \<in> set rs. counts_for a x \<longrightarrow> fst x < reset"
    and "i < length rs" and "counts_for a (rs ! i)"
  shows "passed (serve st rs ! i) \<longleftrightarrow>
         h + length (filter (counts_for a) (take (Suc i) rs)) \<le> max_hits"
  using assms
proof (induction rs arbitrary: st h i)
  case Nil
  then show ?case by simp
next
  case (Cons x rs)
  obtain now req where x: "x = (now, req)" by (cases x)
  obtain v st' where r: "rateLimit st now req = (v, st')" by (cases "rateLimit st now req")
  have later: "\<forall>y \<in> set rs. counts_for a y \<longrightarrow> fst y < reset"
    using Cons.prems(2) by simp
  show ?case
  proof (cases "counts_for a x")
    case True
    then have now: "now < reset" using Cons.prems(2) x by simp
    have st': "st' a = Some (Suc h, reset)" and v: "passed v \<longleftrightarrow> Suc h \<le> max_hits"
      using rateLimit_counts [of a now req st h reset] True Cons.prems(1) now
      by (simp_all add: x r)
    show ?thesis
    proof (cases i)
      case 0
      then show ?thesis using True v by (simp add: x r)
    next
      case (Suc j)
      then have "j < length rs" "counts_for a (rs ! j)"
        using Cons.prems(3,4) by simp_all
      with Cons.IH [of st' "Suc h" j] st' later show ?thesis
        using True Suc by (simp add: x r)
    qed
  next
    case False
    then have st': "st' a = Some (h, reset)"
      using rateLimit_skips [of a now req st] Cons.prems(1) by (simp add: x r)
    from False Cons.prems(4) obtain j where Suc: "i = Suc j"
      by (cases i) auto
    then have "j < length rs" "counts_for a (rs ! j)"
      using Cons.prems(3,4) by simp_all
    with Cons.IH [of st' h j] st' later show ?thesis
      using False Suc by (simp add: x r)
  qed
qed

lemma serve_window_bound:
  assumes "st a = Some (h, reset)"
    and "\<forall>x \<in> set rs. counts_for a x \<longrightarrow> fst x < reset"
  shows "let_through a rs (serve st rs) \<le> max_hits - h"
  using assms
proof (induction rs arbitrary: st h)
  case Nil
  then show ?case by (simp add: let_through_def)
next
  case (Cons x rs)
  obtain now req where x: "x = (now, req)" by (cases x)
  obtain v st' where r: "rateLimit st now req = (v, st')" by (cases "rateLimit st now req")
  have later: "\<forall>y \<in> set rs. counts_for a y \<longrightarrow> fst y < reset"
    using Cons.prems(2) by simp
  show ?case
  proof (cases "counts_for a x")
    case True
    then have now: "now < reset" using Cons.prems(2) x by simp
    have st': "st' a = Some (Suc h, reset)" and v: "passed v \<longleftrightarrow> Suc h \<le> max_hits"
      using rateLimit_counts [of a now req st h reset] True Cons.prems(1) now
      by (simp_all add: x r)
    from Cons.IH [of st' "Suc h"] st' later
    have "let_through a rs (serve st' rs) \<le> max_hits - Suc h" by simp
    then show ?thesis
      using True v by (auto simp: let_through_def x r)
  next
    case False
    then have st': "st' a = Some (h, reset)"
      using rateLimit_skips [of a now req st] Cons.prems(1) by (simp add: x r)
    from Cons.IH [of st' h] st' later show ?thesis
      using False by (simp add: let_through_def x r)
  qed
qed


text \<open>
  C6, amended: the rate limiter applies only to paths under \<^verbatim>\<open>/api/\<close>; within one
  of its fixed 60-second windows it never lets through more than 60 requests of the same
  resolved client address, so of the requests of one address that arrive within the 60
  seconds after the request that opened its window, the first 60 pass and every later
  one (the 61st) is rejected; a rejection carries the standard rate-limit headers and
  no legacy ones.
\<close>

theorem rate_limit_window:
  "(\<not> under_api (path req) \<longrightarrow> rateLimit st now req = (Next [], st)) \<and>
   (fresh st a t \<longrightarrow> counts_for a (t, r) \<longrightarrow>
    (\<forall>x \<in> set rs. counts_for a x \<longrightarrow> fst x < t + windowMs) \<longrightarrow>
      (\<forall>i < Suc (length rs). counts_for a (((t, r) # rs) ! i) \<longrightarrow>
         (passed (serve st ((t, r) # rs) ! i) \<longleftrightarrow>
          length (filter (counts_for a) (take (Suc i) ((t, r) # rs))) \<le> 60)) \<and>
      let_through a ((t, r) # rs) (serve st ((t, r) # rs)) \<le> 60) \<and>
   (\<forall>hs. Too_many_requests hs \<in> set (serve st rs) \<longrightarrow>
      map fst hs = [''RateLimit-Limit'', ''RateLimit-Remaining'', ''RateLimit-Reset''])"
proof -
  have window: "(\<forall>i < Suc (length rs). counts_for a (((t, r) # rs) ! i) \<longrightarrow>
         (passed (serve st ((t, r) # rs) ! i) \<longleftrightarrow>
          length (filter (counts_for a) (take (Suc i) ((t, r) # rs))) \<le> 60)) \<and>
      let_through a ((t, r) # rs) (serve st ((t, r) # rs)) \<le> 60"
    if f: "fresh st a t" and c: "counts_for a (t, r)"
      and w: "\<forall>x \<in> set rs. counts_for a x \<longrightarrow> fst x < t + windowMs"
  proof -
    obtain v st' where rl: "rateLimit st t r = (v, st')" by (cases "rateLimit st t r")
    have st': "st' a = Some (1, t + windowMs)" and v: "passed v"
      using rateLimit_opens [OF c f] by (simp_all add: rl)
    have "passed (serve st ((t, r) # rs) ! i) \<longleftrightarrow>
          length (filter (counts_for a) (take (Suc i) ((t, r) # rs))) \<le> 60"
      if i: "i < Suc (length rs)" and ci: "counts_for a (((t, r) # rs) ! i)" for i
    proof (cases i)
      case 0
      then show ?thesis using v c by (simp add: rl)
    next
      case (Suc j)
      then have "j < length rs" "counts_for a (rs ! j)"
        using i ci by simp_all
      with serve_in_window [of st' a 1 "t + windowMs" rs j] st' w show ?thesis
        using c Suc by (simp add: rl max_hits_def)
    qed
    moreover have "let_through a ((t, r) # rs) (serve st ((t, r) # rs)) \<le> 60"
      using serve_window_bound [of st' a 1 "t + windowMs" rs] st' w c v
      by (simp add: let_through_def rl max_hits_def)
    ultimately show ?thesis by blast
  qed
  show ?thesis
    using rateLimit_outside [of req st now] window serve_rejection_headers [of _ st rs]
    by blast
qed


lemma burst_unfold: "burst = (0, a_request) # map (\<lambda>k. (k * 900, a_request)) [1..<61]"
  unfolding burst_def by (subst upt_conv_Cons) simp_all

lemma burst_counts: "x \<in> set burst \<Longrightarrow> counts_for (Some ''203.0.113.7'') x"
  by (auto simp: burst_def counts_for_def under_api_def keyGenerator_def a_request_def)

lemma length_burst: "length burst = 61"
  by (simp add: burst_def)

lemma burst_rank: "i < 61 \<Longrightarrow> length (filter (counts_for (Some ''203.0.113.7'')) (take (Suc i) burst)) = Suc i"
proof -
  assume i: "i < 61"
  have "filter (counts_for (Some ''203.0.113.7'')) (take (Suc i) burst) = take (Suc i) burst"
    by (rule filter_True) (auto dest: in_set_takeD burst_counts)
  then show ?thesis using i by (simp add: length_burst)
qed


theorem rate_limit_window_witness:
  "rateLimit Map.empty 0 (a_request\<lparr>path := ''/index.html''\<rparr>) = (Next [], Map.empty) \<and>
   passed (serve Map.empty burst ! 59) \<and> \<not> passed (serve Map.empty burst ! 60) \<and>
   header_names (serve Map.empty burst ! 60) =
     [''RateLimit-Limit'', ''RateLimit-Remaining'', ''RateLimit-Reset''] \<and>
   let_through (Some ''203.0.113.7'') burst (serve Map.empty burst) \<le> 60"
proof -
  let ?a = "Some ''203.0.113.7''"
  define rs where "rs = map (\<lambda>k. (k * 900, a_request)) [1..<61]"
  define vs where "vs = serve Map.empty burst"
  have b: "(0, a_request) # rs = burst"
    by (simp only: rs_def burst_unfold)
  have len: "Suc (length rs) = 61"
    by (simp add: rs_def)
  have f: "fresh Map.empty ?a 0"
    by (simp add: fresh_def)
  have c: "counts_for ?a (0, a_request)"
    using burst_counts [of "(0, a_request)"] by (simp add: b [symmetric])
  have w: "\<forall>x \<in> set rs. counts_for ?a x \<longrightarrow> fst x < 0 + windowMs"
    by (auto simp: rs_def windowMs_def)
  note main = rate_limit_window [of a_request Map.empty 0 ?a 0 a_request rs, unfolded b len]
  from main f c w have iff: "\<forall>i < 61. counts_for ?a (burst ! i) \<longrightarrow>
         (passed (vs ! i) \<longleftrightarrow> length (filter (counts_for ?a) (take (Suc i) burst)) \<le> 60)"
    and bound: "let_through ?a burst vs \<le> 60"
    unfolding vs_def by blast+
  have c59: "counts_for ?a (burst ! 59)" and c60: "counts_for ?a (burst ! 60)"
    by (rule burst_counts, rule nth_mem, simp add: length_burst)+
  have p59: "passed (vs ! 59)"
    using iff [rule_format, of 59] c59 burst_rank [of 59] by simp
  have p60: "\<not> passed (vs ! 60)"
    using iff [rule_format, of 60] c60 burst_rank [of 60] by simp
  then obtain hs where hs: "vs ! 60 = Too_many_requests hs"
    by (cases "vs ! 60") auto
  have "length vs = 61"
    by (simp add: vs_def serve_length length_burst)
  then have "Too_many_requests hs \<in> set vs"
    using hs nth_mem [of 60 vs] by simp
  then have "map fst hs = [''RateLimit-Limit'', ''RateLimit-Remaining'', ''RateLimit-Reset'']"
    using rate_limit_window [of a_request Map.empty 0 ?a 0 a_request burst] unfolding vs_def by blast
  moreover have "rateLimit Map.empty 0 (a_request\<lparr>path := ''/index.html''\<rparr>) = (Next [], Map.empty)"
    using rate_limit_window [of "a_request\<lparr>path := ''/index.html''\<rparr>" Map.empty 0]
    by (simp add: under_api_def)
  ultimately show ?thesis using p59 p60 bound hs unfolding vs_def by simp
qed


lemma serve_nth_Suc:
  "serve st ((now, req) # rs) ! Suc i = serve (snd (rateLimit st now req)) rs ! i"
  by (simp split: prod.splits)

text \<open>
  C6, as stated: of 61 requests from one address within 60 seconds the 61st is rejected.
  When the 61 requests span the end of a window, all of them pass: after a request at
  time 0, which opens a window that ends at 60000, come one request at 59990 and sixty
  from 60000 to 60059, and the last of these 61 is the sixtieth of the new window.
\<close>

theorem rate_limit_straddle_counterexample:
  "length (tl straddle) = 61 \<and>
   list_all (counts_for (Some ''203.0.113.7'')) (tl straddle) \<and>
   fst (last straddle) - fst (hd (tl straddle)) < windowMs \<and>
   passed (serve Map.empty straddle ! 61)"
proof -
  let ?a = "Some ''203.0.113.7''"
  define rest where "rest = map (\<lambda>k. (60000 + k, a_request)) [1..<60]"
  define st1 where "st1 = snd (rateLimit Map.empty 0 a_request)"
  define st2 where "st2 = snd (rateLimit st1 59990 a_request)"
  define st3 where "st3 = snd (rateLimit st2 60000 a_request)"
  have s: "straddle = (0, a_request) # (59990, a_request) # (60000, a_request) # rest"
    unfolding straddle_def rest_def by (subst upt_conv_Cons) simp_all
  have c: "counts_for ?a (t, a_request)" for t
    by (simp add: counts_for_def under_api_def keyGenerator_def a_request_def)
  have all: "list_all (counts_for ?a) rest"
    by (auto simp: rest_def list_all_iff c)
  have len: "length rest = 59"
    by (simp add: rest_def)
  have 1: "st1 ?a = Some (1, 60000)"
    using rateLimit_opens(1) [OF c, of Map.empty 0] by (simp add: st1_def fresh_def windowMs_def)
  have 2: "st2 ?a = Some (2, 60000)"
    using rateLimit_counts(1) [of ?a 59990 a_request st1 1 60000] c 1 by (simp add: st2_def)
  have 3: "st3 ?a = Some (1, 120000)"
    using rateLimit_opens(1) [OF c, of st2 60000] 2 by (simp add: st3_def fresh_def windowMs_def)
  have w: "\<forall>x \<in> set rest. counts_for ?a x \<longrightarrow> fst x < 120000"
    by (auto simp: rest_def)
  have "filter (counts_for ?a) (take (Suc 58) rest) = take (Suc 58) rest"
    using all by (intro filter_True) (auto simp: list_all_iff dest: in_set_takeD)
  then have rank: "length (filter (counts_for ?a) (take (Suc 58) rest)) = 59"
    by (simp add: len)
  have "counts_for ?a (rest ! 58)"
    using all len by (simp add: list_all_length)
  then have "passed (serve st3 rest ! 58)"
    using serve_in_window [of st3 ?a 1 120000 rest 58] 3 w len rank by (simp add: max_hits_def)
  moreover have "serve Map.empty straddle ! 61 = serve st3 rest ! 58"
  proof -
    have "(61::nat) = Suc (Suc (Suc 58))" by simp
    then show ?thesis
      unfolding s serve_nth_Suc st1_def st2_def st3_def by (simp only: serve_nth_Suc)
  qed
  ultimately have p: "passed (serve Map.empty straddle ! 61)"
    by (simp only:)
  have l: "fst (last straddle) = 60059"
    by (simp add: straddle_def last_map)
  have h: "fst (hd (tl straddle)) = 59990"
    by (simp add: straddle_def)
  have n: "length (tl straddle) = 61"
    by (simp add: straddle_def)
  have la: "list_all (counts_for ?a) (tl straddle)"
    by (simp add: s all c)
  show ?thesis
    using n la p by (simp add: l h windowMs_def)
qed

section \<open>The health route\<close>

text \<open>The handler alone: it answers 200, sends no statement and leaves the store.\<close>

lemma get_health_ok:
  "res (get_health d req) = \<lparr>status = 200, json = Obj [(''ok'', Bool True)]\<rparr> \<and>
   effects (get_health d req) = [] \<and>
   db_after (get_health d req) = d \<and>
   res (get_health d' req') = res (get_health d req)"
  by (simp add: get_health_def)

lemma health_run_limited:
  "map limited (health_run st d rs) = map (\<lambda>v. \<not> passed v) (serve st rs)"
proof (induction rs arbitrary: st)
  case Nil
  then show ?case by simp
next
  case (Cons x rs)
  obtain now req where x: "x = (now, req)" by (cases x)
  obtain v st' where r: "rateLimit st now req = (v, st')" by (cases "rateLimit st now req")
  show ?case
    using Cons.IH [of st'] by (cases v) (simp_all add: x r health_route_def)
qed

lemma health_run_length: "length (health_run st d rs) = length rs"
  by (induction rs arbitrary: st) (auto split: prod.splits)

lemma serve_opened:
  assumes "fresh st a t" and "counts_for a (t, r)"
    and "\<forall>x \<in> set rs. counts_for a x \<longrightarrow> fst x < t + windowMs"
    and "i < length rs" and "counts_for a (rs ! i)"
  shows "passed (serve st ((t, r) # rs) ! Suc i) \<longleftrightarrow>
         Suc (length (filter (counts_for a) (take (Suc i) rs))) \<le> max_hits"
proof -
  obtain v st' where rl: "rateLimit st t r = (v, st')" by (cases "rateLimit st t r")
  have st': "st' a = Some (1, t + windowMs)"
    using rateLimit_opens(1) [OF assms(2,1)] by (simp add: rl)
  from serve_in_window [of st' a 1 "t + windowMs" rs i] st' assms(3,4,5)
  show ?thesis by (simp add: rl)
qed

text \<open>
  C9, as stated: every request to \<^verbatim>\<open>/api/health\<close> is answered 200 with
  \<^verbatim>\<open>{ok: true}\<close>. The route is under \<^verbatim>\<open>/api/\<close>, so the limiter counts its
  requests: of 61 of them from one address within a window, the last is rejected by the
  limiter and never reaches the handler.
\<close>

theorem health_limited_counterexample:
  "length health_burst = 61 \<and> list_all to_health health_burst \<and>
   limited (health_run Map.empty a_store health_burst ! 60)"
proof -
  let ?a = "Some ''203.0.113.7''"
  let ?r = "a_request\<lparr>path := ''/api/health''\<rparr>"
  define rs where "rs = map (\<lambda>k. (k * 900, ?r)) [1..<61]"
  have b: "health_burst = (0, ?r) # rs"
    unfolding health_burst_def rs_def by (subst upt_conv_Cons) simp_all
  have len: "length rs = 60"
    by (simp add: rs_def)
  have c: "counts_for ?a (t, ?r)" for t
    by (simp add: counts_for_def under_api_def keyGenerator_def a_request_def)
  have all: "\<forall>x \<in> set rs. counts_for ?a x"
    by (auto simp: rs_def c)
  have w: "\<forall>x \<in> set rs. counts_for ?a x \<longrightarrow> fst x < 0 + windowMs"
    by (auto simp: rs_def windowMs_def)
  have "filter (counts_for ?a) (take (Suc 59) rs) = take (Suc 59) rs"
    using all by (intro filter_True) (auto dest: in_set_takeD)
  then have rank: "length (filter (counts_for ?a) (take (Suc 59) rs)) = 60"
    by (simp add: len)
  have "counts_for ?a (rs ! 59)"
    using all len by simp
  with serve_opened [of Map.empty ?a 0 ?r rs 59] c w len rank
  have "\<not> passed (serve Map.empty ((0, ?r) # rs) ! Suc 59)"
    by (simp add: fresh_def max_hits_def)
  moreover have "(60::nat) = Suc 59" by simp
  ultimately have np: "\<not> passed (serve Map.empty health_burst ! 60)"
    by (simp only: b not_False_eq_True)
  have l61: "length health_burst = 61"
    by (simp add: health_burst_def)
  have "limited (health_run Map.empty a_store health_burst ! 60) =
        map limited (health_run Map.empty a_store health_burst) ! 60"
    using l61 by (subst nth_map) (simp_all add: health_run_length)
  also have "\<dots> = (\<not> passed (serve Map.empty health_burst ! 60))"
    unfolding health_run_limited using l61 by (subst nth_map) (simp_all add: serve_length)
  finally have lim: "limited (health_run Map.empty a_store health_burst ! 60)"
    using np by simp
  have th: "list_all to_health health_burst"
    by (auto simp: health_burst_def list_all_iff to_health_def a_request_def)
  show ?thesis using l61 th lim by simp
qed

text \<open>
  C9, amended: every request to \<^verbatim>\<open>/api/health\<close> is counted by the limiter; unless
  it is beyond the 60th of its address in the current window it is answered 200 with
  \<^verbatim>\<open>{ok: true}\<close>, the handler sends no statement to the store and leaves it as it
  is, and the answer is the same whatever the state of the store; a request beyond the
  60th gets the limiter's rejection instead.
\<close>

theorem health_ok_unless_limited:
  "path req = ''/api/health'' \<Longrightarrow>
     fst (health_route st d now req) =
       (if fst (increment st (ip req) now) \<le> 60
        then Answered \<lparr>res = \<lparr>status = 200, json = Obj [(''ok'', Bool True)]\<rparr>,
                       db_after = d, effects = []\<rparr>
        else Rate_limited
               (rate_limit_headers (fst (increment st (ip req) now))
                  (snd (increment st (ip req) now)) now)) \<and>
     snd (health_route st d now req) = st(ip req \<mapsto> increment st (ip req) now)"
  by (auto simp: health_route_def rateLimit_def under_api_def keyGenerator_def Let_def
      max_hits_def get_health_def split: prod.splits)

theorem health_ok_unless_limited_witness:
  "fst (health_route Map.empty (a_store\<lparr>fault := Some ''ECONNREFUSED''\<rparr>) 0
          (a_request\<lparr>path := ''/api/health''\<rparr>)) =
     Answered \<lparr>res = \<lparr>status = 200, json = Obj [(''ok'', Bool True)]\<rparr>,
               db_after = a_store\<lparr>fault := Some ''ECONNREFUSED''\<rparr>, effects = []\<rparr> \<and>
   limited (fst (health_route [Some ''203.0.113.7'' \<mapsto> (60, 60000)] a_store 10
          (a_request\<lparr>path := ''/api/health''\<rparr>)))"
proof -
  let ?r = "a_request\<lparr>path := ''/api/health''\<rparr>"
  have p: "path ?r = ''/api/health''" by simp
  have i: "ip ?r = Some ''203.0.113.7''" by (simp add: a_request_def)
  from health_ok_unless_limited [OF p, of Map.empty "a_store\<lparr>fault := Some ''ECONNREFUSED''\<rparr>" 0]
    health_ok_unless_limited [OF p, of "[Some ''203.0.113.7'' \<mapsto> (60, 60000)]" a_store 10]
  show ?thesis
    by (simp add: i increment_def)
qed

end
